theory Spec2Isabelle
  imports Complex_Main "HOL-Library.Signed_Division"
begin

section \<open>Application state and its handlers (PhotoKittyApp, App.tsx 681-760)\<close>

text \<open>
  The component keeps eight \<open>useState\<close> cells. They are collected in one record; every
  handler takes the record and returns the updated one. JavaScript numbers that only ever
  hold integers (\<open>photoCount\<close>, \<open>currentPhotoIndex\<close>) are \<open>int\<close>; \<open>rotationSpeed\<close> is a
  floating point number and is idealised as a \<open>real\<close>.
\<close>

datatype scene = CHAOS | FORMED

record appState =
  sceneState :: scene
  rotationSpeed :: real
  birthdayMode :: bool
  aiStatus :: string
  debugMode :: bool
  photoCount :: int
  galleryMode :: bool
  currentPhotoIndex :: int

definition TOTAL_NUMBERED_PHOTOS :: int where
  "TOTAL_NUMBERED_PHOTOS = 52"

definition totalGalleryPhotos :: int where
  "totalGalleryPhotos = TOTAL_NUMBERED_PHOTOS"

text \<open>The initial values of the \<open>useState\<close> cells (lines 682-689).\<close>

definition initialApp :: appState where
  "initialApp =
     \<lparr> sceneState = CHAOS, rotationSpeed = 0, birthdayMode = False,
       aiStatus = ''INITIALIZING...'', debugMode = False, photoCount = 0,
       galleryMode = False, currentPhotoIndex = 0 \<rparr>"

text \<open>\<open>handleGalleryToggle\<close> (lines 695-706). The handler reads \<open>galleryMode\<close> and
  \<open>sceneState\<close> only.\<close>

definition handleGalleryToggle :: "appState \<Rightarrow> appState" where
  "handleGalleryToggle s =
     (if \<not> galleryMode s then
        (if sceneState s = FORMED
         then s\<lparr>galleryMode := True, currentPhotoIndex := 0\<rparr>
         else s)
      else s\<lparr>galleryMode := False\<rparr>)"

text \<open>The gallery button is rendered under the condition of line 777; a click on it is the
  only caller of \<open>handleGalleryToggle\<close>. A click on a button that is not rendered does not
  exist: \<open>None\<close>.\<close>

definition galleryButtonShown :: "appState \<Rightarrow> bool" where
  "galleryButtonShown s \<longleftrightarrow> (sceneState s = FORMED \<and> \<not> birthdayMode s) \<or> galleryMode s"

definition clickGalleryButton :: "appState \<Rightarrow> appState option" where
  "clickGalleryButton s =
     (if galleryButtonShown s then Some (handleGalleryToggle s) else None)"

text \<open>\<open>handlePrevPhoto\<close> and \<open>handleNextPhoto\<close> (lines 708-714). JavaScript's \<open>%\<close> is the
  remainder of the division that truncates towards zero: \<open>smod\<close> on \<open>int\<close>.\<close>

definition handlePrevPhoto :: "appState \<Rightarrow> appState" where
  "handlePrevPhoto s =
     s\<lparr>currentPhotoIndex :=
         (currentPhotoIndex s - 1 + totalGalleryPhotos) smod totalGalleryPhotos\<rparr>"

definition handleNextPhoto :: "appState \<Rightarrow> appState" where
  "handleNextPhoto s =
     s\<lparr>currentPhotoIndex := (currentPhotoIndex s + 1) smod totalGalleryPhotos\<rparr>"

text \<open>\<open>handlePhotoUpload\<close> (lines 739-760). The file list of the change event is \<open>None\<close>
  when \<open>event.target.files\<close> is null and \<open>Some n\<close> when it holds \<open>n\<close> files. The two
  \<open>alert\<close> calls are returned as values: \<open>AlertLimit t\<close> is the message that the limit of
  \<open>t\<close> photos is reached, \<open>AlertReady k a b\<close> the message that \<open>k\<close> photos are to be named
  \<open>a.jpg\<close> to \<open>b.jpg\<close>. Clearing the file input (line 759) touches no state cell.\<close>

datatype alert = AlertLimit int | AlertReady int int int

definition handlePhotoUpload :: "nat option \<Rightarrow> appState \<Rightarrow> appState \<times> alert list" where
  "handlePhotoUpload files s =
     (case files of
        None \<Rightarrow> (s, [])
      | Some n \<Rightarrow>
          if n = 0 then (s, [])
          else
            let remainingSlots = TOTAL_NUMBERED_PHOTOS - photoCount s in
            if remainingSlots \<le> 0 then (s, [AlertLimit TOTAL_NUMBERED_PHOTOS])
            else
              let filesToUpload = min (int n) remainingSlots in
              (s\<lparr>photoCount := min (photoCount s + filesToUpload) TOTAL_NUMBERED_PHOTOS\<rparr>,
               [AlertReady filesToUpload (photoCount s + 1) (photoCount s + filesToUpload)]))"

section \<open>Gesture debouncing (GestureController, App.tsx 566-670)\<close>

text \<open>
  The three \<open>useRef\<close> cells of the controller. \<open>lastGesture\<close> and \<open>currentState\<close> may be
  \<open>null\<close>: \<open>None\<close>.
\<close>

record gestureRefs =
  lastGesture :: "string option"
  gestureCount :: nat
  currentState :: "scene option"

definition initialRefs :: gestureRefs where
  "initialRefs = \<lparr> lastGesture = None, gestureCount = 0, currentState = None \<rparr>"

text \<open>
  What one call of \<open>recognizeForVideo\<close> returns, as far as \<open>predictWebcam\<close> reads it: for
  every detected hand the name and score of its first category
  (\<open>results.gestures[h][0]\<close>) and the \<open>x\<close> coordinate of its first landmark
  (\<open>results.landmarks[h][0].x\<close>). Scores and coordinates are floating point numbers,
  idealised as reals; the code only compares them with constants and scales them.
\<close>

record recognition =
  gestures :: "(string \<times> real) list"
  landmarks :: "real list"

text \<open>The callbacks of the controller, in the order they are called.\<close>

datatype callback = OnGesture scene | OnStatus string | OnMove real

definition sceneName :: "scene \<Rightarrow> string" where
  "sceneName t = (case t of CHAOS \<Rightarrow> ''CHAOS'' | FORMED \<Rightarrow> ''FORMED'')"

text \<open>Lines 635-637: two assignments in sequence, the second one wins.\<close>

definition targetStateOf :: "string \<Rightarrow> scene option" where
  "targetStateOf name =
     (let t0 = None;
          t1 = (if name = ''Open_Palm'' then Some CHAOS else t0);
          t2 = (if name = ''Closed_Fist'' then Some FORMED else t1)
      in t2)"

text \<open>The debounce logic for one sample with a category (lines 624-651).\<close>

definition debounce :: "bool \<Rightarrow> string \<Rightarrow> real \<Rightarrow> gestureRefs \<Rightarrow> gestureRefs \<times> callback list" where
  "debounce debug name score r =
     (if score > 0.5 then
        let r1 = (if Some name = lastGesture r
                  then r\<lparr>gestureCount := gestureCount r + 1\<rparr>
                  else r\<lparr>lastGesture := Some name, gestureCount := 1\<rparr>)
        in
          if gestureCount r1 > 5 then
            (case targetStateOf name of
               None \<Rightarrow> (r1, [])
             | Some targetState \<Rightarrow>
                 if Some targetState \<noteq> currentState r1 then
                   (r1\<lparr>currentState := Some targetState\<rparr>,
                    OnGesture targetState #
                    (if debug
                     then [OnStatus (''DETECTED: '' @ name @ '' -> '' @ sceneName targetState)]
                     else []))
                 else (r1, []))
          else (r1, [])
      else (r\<lparr>gestureCount := 0, lastGesture := None\<rparr>, []))"

text \<open>Lines 653-656: the hand position becomes a rotation speed, with a dead zone.\<close>

definition moveOf :: "real list \<Rightarrow> callback list" where
  "moveOf lms =
     (case lms of
        [] \<Rightarrow> []
      | x # _ \<Rightarrow>
          let speed = (0.5 - x) * 0.15 in
          [OnMove (if \<bar>speed\<bar> > 0.01 then speed else 0)])"

text \<open>One recognised video frame (lines 621-663).\<close>

definition processResults :: "bool \<Rightarrow> recognition \<Rightarrow> gestureRefs \<Rightarrow> gestureRefs \<times> callback list" where
  "processResults debug results r =
     (case gestures results of
        [] \<Rightarrow>
          (r\<lparr>gestureCount := 0, lastGesture := None\<rparr>,
           OnMove 0 # (if debug then [OnStatus ''AI READY: NO HAND''] else []))
      | (name, score) # _ \<Rightarrow>
          let (r', cbs) = debounce debug name score r
          in (r', cbs @ moveOf (landmarks results)))"

text \<open>The frames of a video, one after the other: the final refs and all callbacks.\<close>

fun predictAll :: "bool \<Rightarrow> gestureRefs \<Rightarrow> recognition list \<Rightarrow> gestureRefs \<times> callback list" where
  "predictAll debug r [] = (r, [])"
| "predictAll debug r (x # xs) =
     (let (r1, c1) = processResults debug x r;
          (r2, c2) = predictAll debug r1 xs
      in (r2, c1 @ c2))"

text \<open>The transition events among the callbacks.\<close>

fun gestureEvents :: "callback list \<Rightarrow> scene list" where
  "gestureEvents [] = []"
| "gestureEvents (OnGesture t # cs) = t # gestureEvents cs"
| "gestureEvents (_ # cs) = gestureEvents cs"

text \<open>A frame with one hand whose first category is \<open>name\<close> with the given score.\<close>

definition sample :: "string \<Rightarrow> real \<Rightarrow> recognition" where
  "sample name score = \<lparr> gestures = [(name, score)], landmarks = [] \<rparr>"

text \<open>A frame whose first hand shows \<open>name\<close> with a confidence above 0.5.\<close>

definition qualifying :: "string \<Rightarrow> recognition \<Rightarrow> bool" where
  "qualifying name results =
     (case gestures results of
        [] \<Rightarrow> False
      | (n, score) # _ \<Rightarrow> n = name \<and> score > 0.5)"

text \<open>
  The history of a video, read off the frames alone. \<open>confident x\<close> is the label of a
  frame whose first hand has a confidence above 0.5, and nothing for any other frame.
\<close>

definition confident :: "recognition \<Rightarrow> string option" where
  "confident x =
     (case gestures x of
        [] \<Rightarrow> None
      | (name, score) # _ \<Rightarrow> if score > 0.5 then Some name else None)"

text \<open>How many frames at the head of a list are confident with the given label.\<close>

fun runFrom :: "string \<Rightarrow> recognition list \<Rightarrow> nat" where
  "runFrom label [] = 0"
| "runFrom label (x # xs) = (if confident x = Some label then Suc (runFrom label xs) else 0)"

text \<open>The label of the latest frame, and the length of the run of confident frames with one
  label that ends with the latest frame (the list is in the order of time).\<close>

definition lastLabel :: "recognition list \<Rightarrow> string option" where
  "lastLabel fs = (case rev fs of [] \<Rightarrow> None | x # _ \<Rightarrow> confident x)"

definition trailingRun :: "recognition list \<Rightarrow> nat" where
  "trailingRun fs = (case lastLabel fs of None \<Rightarrow> 0 | Some label \<Rightarrow> runFrom label (rev fs))"

text \<open>The latest transition event among the callbacks made so far.\<close>

definition lastEvent :: "callback list \<Rightarrow> scene option" where
  "lastEvent cbs = (case rev (gestureEvents cbs) of [] \<Rightarrow> None | t # _ \<Rightarrow> Some t)"

text \<open>The refs after the frames \<open>fs\<close> of a freshly mounted controller, and the transition
  events that the next frame \<open>x\<close> emits.\<close>

definition refsAfter :: "bool \<Rightarrow> recognition list \<Rightarrow> gestureRefs" where
  "refsAfter debug fs = fst (predictAll debug initialRefs fs)"

definition eventsOn :: "bool \<Rightarrow> recognition list \<Rightarrow> recognition \<Rightarrow> scene list" where
  "eventsOn debug fs x = gestureEvents (snd (processResults debug x (refsAfter debug fs)))"

text \<open>
  The refs agree with the latch: once the counter is above 5 for a label that maps to a
  scene, that scene is the latched one. It holds initially and every frame keeps it.
\<close>

definition latched :: "gestureRefs \<Rightarrow> bool" where
  "latched r =
     (if gestureCount r > 5 then
        (case lastGesture r of
           None \<Rightarrow> True
         | Some name \<Rightarrow>
             (case targetStateOf name of
                None \<Rightarrow> True
              | Some t \<Rightarrow> currentState r = Some t))
      else True)"

section \<open>Layout generator (getHelloKittyData, App.tsx 66-204)\<close>

datatype elementType = PHOTO | HEART | BALLOON | GIFT | EYE | NOSE | WHISKER | BOW

text \<open>\<open>THREE.Vector3\<close> and \<open>THREE.Euler\<close>, with real components.\<close>

datatype vector3 = Vector3 (vx: real) (vy: real) (vz: real)

datatype euler = Euler (ex: real) (ey: real) (ez: real)

definition addV :: "vector3 \<Rightarrow> vector3 \<Rightarrow> vector3" where
  "addV a b = Vector3 (vx a + vx b) (vy a + vy b) (vz a + vz b)"

text \<open>
  \<open>v.applyAxisAngle(new THREE.Vector3(0, 0, 1), angle)\<close>: the library turns \<open>v\<close> about the
  z axis by \<open>angle\<close>.
\<close>

definition applyAxisAngleZ :: "real \<Rightarrow> vector3 \<Rightarrow> vector3" where
  "applyAxisAngleZ angle v =
     Vector3 (vx v * cos angle - vy v * sin angle) (vx v * sin angle + vy v * cos angle) (vz v)"

text \<open>\<open>CONFIG.colors\<close> (lines 21-30).\<close>

definition pink :: string where "pink = ''#ff69b4''"
definition hotPink :: string where "hotPink = ''#ff1493''"
definition lightPink :: string where "lightPink = ''#ffb6c1''"
definition white :: string where "white = ''#ffffff''"
definition black :: string where "black = ''#1a1a1a''"
definition yellow :: string where "yellow = ''#ffd700''"
definition blue :: string where "blue = ''#87cefa''"

text \<open>The object \<open>getHelloKittyData\<close> returns: \<open>{ type, pos, color, scale, rotation }\<close>.\<close>

record kittyData =
  ktype :: elementType
  pos :: vector3
  color :: string
  scale :: real
  rotation :: euler

text \<open>
  \<open>Math.random()\<close> is an input: \<open>rnd k\<close> is what the \<open>k\<close>-th call made by one invocation
  of \<open>getHelloKittyData\<close> returns (counting from 0).

  The bow branch (lines 130-151).
\<close>

definition bowData :: "(nat \<Rightarrow> real) \<Rightarrow> kittyData" where
  "bowData rnd =
     (let scale0 = 0.8 + rnd 0 * 0.4;
          part = rnd 1;
          (center, radius, scaleX, scaleY) =
            (if part < 0.2 then (Vector3 0 0 0, 0.5, 1, 1)
             else if part < 0.6 then (Vector3 (- 1.2) 0 0, 0.8, 1, 1.2)
             else (Vector3 1.2 0 0, 0.8, 1, 1.2));
          u = rnd 2; v = rnd 3;
          theta = 2 * pi * u; phi = arccos (2 * v - 1);
          x = radius * sin phi * cos theta * scaleX;
          y = radius * sin phi * sin theta * scaleY;
          z = radius * cos phi * 0.5;
          p1 = addV (Vector3 x y z) center;
          p2 = applyAxisAngleZ (- 0.5) p1;
          p3 = addV p2 (Vector3 3 2.5 2.5)
      in \<lparr> ktype = BOW, pos = p3, color = hotPink, scale = scale0, rotation = Euler 0 0 0 \<rparr>)"

text \<open>The head, ears and body branch (lines 152-201).\<close>

definition bodyData :: "(nat \<Rightarrow> real) \<Rightarrow> kittyData" where
  "bodyData rnd =
     (let r = rnd 0;
          typeR = rnd 1;
          ty = (if typeR < 0.5 then PHOTO
                else if typeR < 0.75 then BALLOON
                else if typeR < 0.9 then HEART
                else GIFT);
          (color0, k) =
            (if ty = HEART \<or> ty = GIFT
             then (if rnd 2 > 0.5 then white else lightPink, 3)
             else (white, 2 :: nat))
      in
        if r < 0.65 then
          let u = rnd k; v = rnd (k + 1);
              theta = 2 * pi * u; phi = arccos (2 * v - 1);
              rBase = 3.5 + rnd (k + 2) * 0.5
          in \<lparr> ktype = ty,
               pos = Vector3 (rBase * sin phi * cos theta)
                       ((rBase * 0.75) * sin phi * sin theta)
                       ((rBase * 0.75) * cos phi),
               color = color0, scale = 1, rotation = Euler 0 0 0 \<rparr>
        else if r < 0.85 then
          let isLeft = (rnd k > 0.5);
              u = rnd (k + 1); v = rnd (k + 2);
              theta = 2 * pi * u; phi = arccos (2 * v - 1);
              radius = 1.2;
              x = radius * sin phi * cos theta;
              y = radius * sin phi * sin theta;
              z = radius * cos phi;
              offset = Vector3 (if isLeft then - 3.5 else 3.5) 3 0;
              rotationZ = (if isLeft then 0.5 else - 0.5)
          in \<lparr> ktype = ty,
               pos = addV (applyAxisAngleZ rotationZ (Vector3 x y z)) offset,
               color = color0, scale = 1, rotation = Euler 0 0 0 \<rparr>
        else
          let u = rnd k; v = rnd (k + 1);
              theta = 2 * pi * u;
              h = - 4 + v * 3;
              r' = 2.5 * (1 - (h + 4) / 4) + 1.5;
              color1 = (if ty \<noteq> PHOTO
                        then (if rnd (k + 2) > 0.5 then blue else pink)
                        else color0)
          in \<lparr> ktype = ty,
               pos = Vector3 (r' * cos theta) h (r' * sin theta),
               color = color1, scale = 1, rotation = Euler 0 0 0 \<rparr>)"

text \<open>The whole function (lines 68-204). The index is an array index, a natural number.\<close>

definition getHelloKittyData :: "nat \<Rightarrow> (nat \<Rightarrow> real) \<Rightarrow> kittyData" where
  "getHelloKittyData index rnd =
     (if index = 0 \<or> index = 1 then
        \<lparr> ktype = EYE,
          pos = Vector3 (if index = 0 then - 1.5 else 1.5) (- 0.5) 3.8,
          color = black, scale = 0.8, rotation = Euler 0 0 0 \<rparr>
      else if index = 2 then
        \<lparr> ktype = NOSE, pos = Vector3 0 (- 1.2) 4,
          color = yellow, scale = 0.6, rotation = Euler 0 0 0 \<rparr>
      else if index \<ge> 3 \<and> index \<le> 8 then
        let side = (if index < 6 then - 1 else 1 :: real);
            row = (index - 3) mod 3;
            yBase = - 0.8;
            yStep = 0.6;
            xPos = side * 4.5;
            yPos = yBase - (real row * yStep);
            zPos = 3;
            tilt = 0.15;
            rowTilt = (if row = 0 then tilt else if row = 1 then 0 else - tilt);
            rotZ = (if side = 1 then - pi / 2 + rowTilt else pi / 2 - rowTilt)
        in \<lparr> ktype = WHISKER, pos = Vector3 xPos yPos zPos,
             color = black, scale = 1, rotation = Euler 0 0 rotZ \<rparr>
      else if index \<ge> 9 \<and> index \<le> 35 then bowData rnd
      else bodyData rnd)"

text \<open>
  The region the specification names for the bow: the union of three balls, radius 0.5
  about \<open>(0,0,0)\<close> and radius 0.8 about \<open>(-1.2,0,0)\<close> and \<open>(1.2,0,0)\<close>, each moved by a map
  \<open>place\<close> of its centre (the bow offset alone, or the rotation and the offset).
\<close>

definition withinBall :: "vector3 \<Rightarrow> vector3 \<Rightarrow> real \<Rightarrow> bool" where
  "withinBall p c radius \<longleftrightarrow>
     (vx p - vx c)\<^sup>2 + (vy p - vy c)\<^sup>2 + (vz p - vz c)\<^sup>2 \<le> radius\<^sup>2"

definition bowOffset :: vector3 where
  "bowOffset = Vector3 3 2.5 2.5"

definition translated :: "vector3 \<Rightarrow> vector3" where
  "translated c = addV c bowOffset"

definition rotatedTranslated :: "vector3 \<Rightarrow> vector3" where
  "rotatedTranslated c = addV (applyAxisAngleZ (- 0.5) c) bowOffset"

definition withinLobes :: "(vector3 \<Rightarrow> vector3) \<Rightarrow> real \<Rightarrow> vector3 \<Rightarrow> bool" where
  "withinLobes place sideRadius p \<longleftrightarrow>
     withinBall p (place (Vector3 0 0 0)) 0.5
     \<or> withinBall p (place (Vector3 (- 1.2) 0 0)) sideRadius
     \<or> withinBall p (place (Vector3 1.2 0 0)) sideRadius"

text \<open>A finite list of draws as a random source (0 once the list is used up).\<close>

definition draws :: "real list \<Rightarrow> nat \<Rightarrow> real" where
  "draws xs k = (if k < length xs then xs ! k else 0)"

section \<open>Particle field and gallery ring (CompositionElements, App.tsx 339-451)\<close>

text \<open>
  One element of \<open>data\<close> (lines 352-358). \<open>ptype\<close>, \<open>pcolor\<close>, \<open>pscale\<close> and \<open>tumbleSpeed\<close> are
  the fields \<open>type\<close>, \<open>color\<close>, \<open>scale\<close> and \<open>rotationSpeed\<close> of the source.
\<close>

record particle =
  ptype :: elementType
  targetPos :: vector3
  chaosPos :: vector3
  pcolor :: string
  pscale :: real
  targetRotation :: euler
  currentPos :: vector3
  chaosRotation :: euler
  textureIndex :: nat
  tumbleSpeed :: vector3

text \<open>
  \<open>uniquePhotoIndices\<close> (lines 364-377): the loop over \<open>i = 0 .. data.length - 1\<close> with its
  two variables, the set \<open>seenTextures\<close> and the array \<open>indices\<close>.
\<close>

definition uniqueStep :: "particle list \<Rightarrow> nat \<Rightarrow> nat set \<times> nat list \<Rightarrow> nat set \<times> nat list" where
  "uniqueStep data i acc =
     (case acc of (seenTextures, indices) \<Rightarrow>
        if ptype (data ! i) = PHOTO then
          (if textureIndex (data ! i) \<notin> seenTextures
           then (insert (textureIndex (data ! i)) seenTextures, indices @ [i])
           else (seenTextures, indices))
        else (seenTextures, indices))"

definition uniquePhotoIndices :: "particle list \<Rightarrow> nat list" where
  "uniquePhotoIndices data = snd (fold (uniqueStep data) [0..<length data] ({}, []))"

text \<open>\<open>Array.prototype.indexOf\<close>: the first position of the element, -1 when absent.\<close>

fun indexOf :: "nat list \<Rightarrow> nat \<Rightarrow> int" where
  "indexOf [] a = - 1"
| "indexOf (x # xs) a =
     (if x = a then 0 else (let k = indexOf xs a in if k < 0 then - 1 else k + 1))"

text \<open>\<open>getGalleryPosition\<close> (lines 380-390).\<close>

definition getGalleryPosition :: "int \<Rightarrow> int \<Rightarrow> int \<Rightarrow> vector3" where
  "getGalleryPosition photoIdx totalPhotos focusedIndex =
     (let radius = 20;
          angleOffset = (real_of_int focusedIndex / real_of_int totalPhotos) * pi * 2;
          angle = (real_of_int photoIdx / real_of_int totalPhotos) * pi * 2 - angleOffset
      in Vector3 (sin angle * radius) 0 (cos angle * radius))"

text \<open>\<open>Vector3.lerp\<close>.\<close>

definition lerp :: "vector3 \<Rightarrow> vector3 \<Rightarrow> real \<Rightarrow> vector3" where
  "lerp a b alpha =
     Vector3 (vx a + (vx b - vx a) * alpha) (vy a + (vy b - vy a) * alpha)
       (vz a + (vz b - vz a) * alpha)"

text \<open>
  The frame callback (lines 392-451) for the child with index \<open>i\<close>: the new \<open>currentPos\<close>
  of its particle, and the position and visibility of its group. The orientation of the
  group (lines 418-436) is left out.
\<close>

record group3d =
  position :: vector3
  visible :: bool

definition frameChild ::
  "scene \<Rightarrow> bool \<Rightarrow> int \<Rightarrow> real \<Rightarrow> nat list \<Rightarrow> nat \<Rightarrow> particle \<Rightarrow> particle \<times> group3d" where
  "frameChild state gallery currentIdx delta unique i objData =
     (let isFormed = (state = FORMED);
          isUniqueGalleryPhoto = (gallery \<and> i \<in> set unique);
          target =
            (if isUniqueGalleryPhoto then
               getGalleryPosition (indexOf unique i) (int (length unique)) currentIdx
             else if isFormed then targetPos objData
             else chaosPos objData);
          lerpSpeed = (if gallery then 2.0 else (if isFormed then 1.5 else 0.5));
          newPos = lerp (currentPos objData) target (delta * lerpSpeed);
          vis = (if gallery then (if isUniqueGalleryPhoto then True else False) else True)
      in (objData\<lparr>currentPos := newPos\<rparr>, \<lparr> position = newPos, visible = vis \<rparr>))"

text \<open>
  The callback over all children; the groups are rendered one per element of \<open>data\<close>
  (line 455). \<open>mounted\<close> says that \<open>groupRef.current\<close> is set; otherwise the callback returns
  at once (line 393): \<open>None\<close>.
\<close>

definition useFrame ::
  "bool \<Rightarrow> scene \<Rightarrow> bool \<Rightarrow> int \<Rightarrow> real \<Rightarrow> particle list \<Rightarrow> (particle \<times> group3d) list option" where
  "useFrame mounted state gallery currentIdx delta data =
     (if \<not> mounted then None
      else Some (map (\<lambda>i. frameChild state gallery currentIdx delta
                          (uniquePhotoIndices data) i (data ! i))
                   [0..<length data]))"

text \<open>
  The particle with index \<open>i\<close> is the first photo particle with its texture; and the
  textures of the photo particles before index \<open>n\<close> (the value of \<open>seenTextures\<close> when the
  loop reaches \<open>n\<close>).
\<close>

definition firstOfTexture :: "particle list \<Rightarrow> nat \<Rightarrow> bool" where
  "firstOfTexture data i \<longleftrightarrow>
     ptype (data ! i) = PHOTO
     \<and> list_all
         (\<lambda>j. \<not> (ptype (data ! j) = PHOTO \<and> textureIndex (data ! j) = textureIndex (data ! i)))
         [0..<i]"

definition seenUpTo :: "particle list \<Rightarrow> nat \<Rightarrow> nat set" where
  "seenUpTo data n =
     set (map (\<lambda>j. textureIndex (data ! j)) (filter (\<lambda>j. ptype (data ! j) = PHOTO) [0..<n]))"

text \<open>A small particle list: a photo, a heart, and a second photo with the texture of the
  first.\<close>

definition exampleParticle :: "elementType \<Rightarrow> nat \<Rightarrow> particle" where
  "exampleParticle ty tex =
     \<lparr> ptype = ty, targetPos = Vector3 0 0 0, chaosPos = Vector3 0 0 0, pcolor = white,
       pscale = 1, targetRotation = Euler 0 0 0, currentPos = Vector3 0 0 0,
       chaosRotation = Euler 0 0 0, textureIndex = tex, tumbleSpeed = Vector3 0 0 0 \<rparr>"

definition exampleData :: "particle list" where
  "exampleData = [exampleParticle PHOTO 0, exampleParticle HEART 1, exampleParticle PHOTO 0]"

section \<open>Theorems about the application handlers\<close>

text \<open>
  C4. For every current index in \<open>[0, totalGalleryPhotos)\<close> the next-photo handler yields
  \<open>(i + 1) mod totalGalleryPhotos\<close> and the previous-photo handler yields
  \<open>(i - 1 + totalGalleryPhotos) mod totalGalleryPhotos\<close> (the mathematical modulus);
  stepping back from 0 gives \<open>totalGalleryPhotos - 1\<close>, stepping forward from
  \<open>totalGalleryPhotos - 1\<close> gives 0, and the index stays in the range. Nothing but the
  index changes.
\<close>

theorem gallery_index_wraps:
  assumes "0 \<le> currentPhotoIndex s" and "currentPhotoIndex s < totalGalleryPhotos"
  shows "handleNextPhoto s =
           s\<lparr>currentPhotoIndex := (currentPhotoIndex s + 1) mod totalGalleryPhotos\<rparr>
       \<and> handlePrevPhoto s =
           s\<lparr>currentPhotoIndex :=
               (currentPhotoIndex s - 1 + totalGalleryPhotos) mod totalGalleryPhotos\<rparr>
       \<and> (currentPhotoIndex s = 0 \<longrightarrow>
            currentPhotoIndex (handlePrevPhoto s) = totalGalleryPhotos - 1)
       \<and> (currentPhotoIndex s = totalGalleryPhotos - 1 \<longrightarrow>
            currentPhotoIndex (handleNextPhoto s) = 0)
       \<and> 0 \<le> currentPhotoIndex (handleNextPhoto s)
       \<and> currentPhotoIndex (handleNextPhoto s) < totalGalleryPhotos
       \<and> 0 \<le> currentPhotoIndex (handlePrevPhoto s)
       \<and> currentPhotoIndex (handlePrevPhoto s) < totalGalleryPhotos"
proof -
  let ?i = "currentPhotoIndex s"
  have tot: "totalGalleryPhotos = 52"
    by (simp add: totalGalleryPhotos_def TOTAL_NUMBERED_PHOTOS_def)
  have i: "0 \<le> ?i" "?i < 52"
    using assms by (simp_all add: tot)
  have nxt: "(?i + 1) smod 52 = (?i + 1) mod 52"
    using i by (simp add: smod_int_alt_def)
  have prv: "(?i - 1 + 52) smod 52 = (?i - 1 + 52) mod 52"
    using i by (simp add: smod_int_alt_def)
  have n0: "?i = 51 \<Longrightarrow> (?i + 1) mod 52 = 0"
    by simp
  have p0: "?i = 0 \<Longrightarrow> (?i - 1 + 52) mod 52 = 51"
    by simp
  show ?thesis
    using i nxt prv n0 p0
    by (simp add: handleNextPhoto_def handlePrevPhoto_def tot)
qed

theorem gallery_index_wraps_witness:
  "currentPhotoIndex (handlePrevPhoto initialApp) = 51
   \<and> currentPhotoIndex (handleNextPhoto (initialApp\<lparr>currentPhotoIndex := 51\<rparr>)) = 0
   \<and> currentPhotoIndex (handleNextPhoto initialApp) = 1"
proof -
  have a: "0 \<le> currentPhotoIndex initialApp"
       "currentPhotoIndex initialApp < totalGalleryPhotos"
    by (simp_all add: initialApp_def totalGalleryPhotos_def TOTAL_NUMBERED_PHOTOS_def)
  have b: "0 \<le> currentPhotoIndex (initialApp\<lparr>currentPhotoIndex := 51\<rparr>)"
       "currentPhotoIndex (initialApp\<lparr>currentPhotoIndex := 51\<rparr>) < totalGalleryPhotos"
    by (simp_all add: totalGalleryPhotos_def TOTAL_NUMBERED_PHOTOS_def)
  show ?thesis
    using gallery_index_wraps [OF a] gallery_index_wraps [OF b]
    by (simp add: initialApp_def totalGalleryPhotos_def TOTAL_NUMBERED_PHOTOS_def)
qed

text \<open>
  C1. Entering gallery mode is rejected, with no state change, unless the scene is FORMED
  and birthday mode is off. The toggle is invoked by a click on the gallery button and by
  nothing else. With the gallery closed, a state that is not FORMED or has birthday mode on
  renders no button, so no toggle takes place there; and the handler by itself changes
  nothing unless the scene is FORMED. A click that opens the gallery happens only when the
  scene is FORMED and birthday mode is off, and there it opens the gallery at index 0.
\<close>

theorem gallery_entry_guard:
  assumes "\<not> galleryMode s"
  shows "(sceneState s \<noteq> FORMED \<longrightarrow> handleGalleryToggle s = s)
       \<and> (galleryMode (handleGalleryToggle s) \<longrightarrow> sceneState s = FORMED)
       \<and> (\<not> (sceneState s = FORMED \<and> \<not> birthdayMode s) \<longrightarrow> clickGalleryButton s = None)
       \<and> (\<forall>s'. clickGalleryButton s = Some s' \<and> galleryMode s'
              \<longrightarrow> sceneState s = FORMED \<and> \<not> birthdayMode s)
       \<and> (sceneState s = FORMED \<and> \<not> birthdayMode s \<longrightarrow>
            clickGalleryButton s = Some (s\<lparr>galleryMode := True, currentPhotoIndex := 0\<rparr>))"
  using assms
  by (auto simp add: handleGalleryToggle_def clickGalleryButton_def galleryButtonShown_def)

text \<open>
  The guard at work: from the initial (CHAOS) state the handler changes nothing, in
  birthday mode there is no button to click, and from a FORMED state the gallery opens.
\<close>

theorem gallery_entry_guard_witness:
  "handleGalleryToggle initialApp = initialApp
   \<and> clickGalleryButton (initialApp\<lparr>sceneState := FORMED, birthdayMode := True\<rparr>) = None
   \<and> galleryMode (handleGalleryToggle (initialApp\<lparr>sceneState := FORMED\<rparr>))
   \<and> clickGalleryButton (initialApp\<lparr>sceneState := FORMED\<rparr>)
       = Some (initialApp\<lparr>sceneState := FORMED, galleryMode := True\<rparr>)
   \<and> sceneState (initialApp\<lparr>sceneState := FORMED\<rparr>) = FORMED"
proof -
  have a: "\<not> galleryMode initialApp" by (simp add: initialApp_def)
  have b: "\<not> galleryMode (initialApp\<lparr>sceneState := FORMED, birthdayMode := True\<rparr>)"
    by (simp add: initialApp_def)
  have c: "\<not> galleryMode (initialApp\<lparr>sceneState := FORMED\<rparr>)"
    by (simp add: initialApp_def)
  have d: "galleryMode (handleGalleryToggle (initialApp\<lparr>sceneState := FORMED\<rparr>))"
    by (simp add: handleGalleryToggle_def initialApp_def)
  have e: "sceneState initialApp \<noteq> FORMED" by (simp add: initialApp_def)
  have f: "clickGalleryButton (initialApp\<lparr>sceneState := FORMED\<rparr>)
       = Some (initialApp\<lparr>sceneState := FORMED, galleryMode := True\<rparr>)"
    by (simp add: clickGalleryButton_def galleryButtonShown_def handleGalleryToggle_def
        initialApp_def)
  show ?thesis
    using gallery_entry_guard [OF a] gallery_entry_guard [OF b] gallery_entry_guard [OF c] d e f
    by simp
qed

text \<open>
  C10. Every entry into gallery mode through the toggle sets \<open>currentPhotoIndex\<close> to 0, and
  the toggle, entering or leaving, changes no cell other than \<open>galleryMode\<close> and
  \<open>currentPhotoIndex\<close>: \<open>sceneState\<close>, \<open>birthdayMode\<close>, \<open>photoCount\<close>, \<open>rotationSpeed\<close>,
  \<open>aiStatus\<close> and \<open>debugMode\<close> keep their values. Leaving changes \<open>galleryMode\<close> alone.
\<close>

theorem gallery_toggle_frame:
  "sceneState (handleGalleryToggle s) = sceneState s
   \<and> birthdayMode (handleGalleryToggle s) = birthdayMode s
   \<and> photoCount (handleGalleryToggle s) = photoCount s
   \<and> rotationSpeed (handleGalleryToggle s) = rotationSpeed s
   \<and> aiStatus (handleGalleryToggle s) = aiStatus s
   \<and> debugMode (handleGalleryToggle s) = debugMode s
   \<and> (\<not> galleryMode s \<and> galleryMode (handleGalleryToggle s)
        \<longrightarrow> currentPhotoIndex (handleGalleryToggle s) = 0)
   \<and> (galleryMode s \<longrightarrow> handleGalleryToggle s = s\<lparr>galleryMode := False\<rparr>)
   \<and> (\<not> galleryMode s \<and> sceneState s = FORMED
        \<longrightarrow> handleGalleryToggle s = s\<lparr>galleryMode := True, currentPhotoIndex := 0\<rparr>)"
  by (simp add: handleGalleryToggle_def)

text \<open>
  Entering from index 7 resets the index; leaving at index 7 keeps it.
\<close>

theorem gallery_toggle_frame_witness:
  "handleGalleryToggle (initialApp\<lparr>sceneState := FORMED, currentPhotoIndex := 7\<rparr>)
     = initialApp\<lparr>sceneState := FORMED, currentPhotoIndex := 0, galleryMode := True\<rparr>
   \<and> handleGalleryToggle (initialApp\<lparr>galleryMode := True, currentPhotoIndex := 7\<rparr>)
     = initialApp\<lparr>galleryMode := False, currentPhotoIndex := 7\<rparr>"
proof -
  let ?a = "initialApp\<lparr>sceneState := FORMED, currentPhotoIndex := 7\<rparr>"
  let ?b = "initialApp\<lparr>galleryMode := True, currentPhotoIndex := 7\<rparr>"
  have a: "\<not> galleryMode ?a \<and> sceneState ?a = FORMED" by (simp add: initialApp_def)
  have b: "galleryMode ?b" by simp
  show ?thesis
    using gallery_toggle_frame [of ?a] gallery_toggle_frame [of ?b] a b
    by (simp add: initialApp_def)
qed

text \<open>
  C9. An upload of at least one file while no slot remains (the limit is 52) shows the
  limit alert and changes no state. While slots remain, \<open>photoCount\<close> grows by the number
  of files, capped at the remaining slots, so it never exceeds 52; nothing else changes.
  (A change event without files returns at once, without an alert.)
\<close>

theorem upload_limit:
  "(0 < n \<and> TOTAL_NUMBERED_PHOTOS - photoCount s \<le> 0 \<longrightarrow>
      handlePhotoUpload (Some n) s = (s, [AlertLimit 52]))
   \<and> (0 < n \<and> 0 < TOTAL_NUMBERED_PHOTOS - photoCount s \<longrightarrow>
        handlePhotoUpload (Some n) s
          = (s\<lparr>photoCount := min (photoCount s + int n) 52\<rparr>,
             [AlertReady (min (int n) (52 - photoCount s)) (photoCount s + 1)
                (photoCount s + min (int n) (52 - photoCount s))])
        \<and> photoCount (fst (handlePhotoUpload (Some n) s))
            = photoCount s + min (int n) (52 - photoCount s)
        \<and> photoCount s < photoCount (fst (handlePhotoUpload (Some n) s))
        \<and> photoCount (fst (handlePhotoUpload (Some n) s)) \<le> 52)
   \<and> handlePhotoUpload None s = (s, [])
   \<and> handlePhotoUpload (Some 0) s = (s, [])"
  by (auto simp add: handlePhotoUpload_def TOTAL_NUMBERED_PHOTOS_def Let_def min_def)

text \<open>
  Three files at the limit, with two slots left, and with room for all.
\<close>

theorem upload_limit_witness:
  "handlePhotoUpload (Some 3) (initialApp\<lparr>photoCount := 52\<rparr>)
     = (initialApp\<lparr>photoCount := 52\<rparr>, [AlertLimit 52])
   \<and> handlePhotoUpload (Some 3) (initialApp\<lparr>photoCount := 50\<rparr>)
     = (initialApp\<lparr>photoCount := 52\<rparr>, [AlertReady 2 51 52])
   \<and> handlePhotoUpload (Some 3) (initialApp\<lparr>photoCount := 10\<rparr>)
     = (initialApp\<lparr>photoCount := 13\<rparr>, [AlertReady 3 11 13])"
proof -
  have n: "0 < (3::nat)" by simp
  show ?thesis
    using n upload_limit [of 3 "initialApp\<lparr>photoCount := 52\<rparr>"]
      upload_limit [of 3 "initialApp\<lparr>photoCount := 50\<rparr>"]
      upload_limit [of 3 "initialApp\<lparr>photoCount := 10\<rparr>"]
    by (simp add: TOTAL_NUMBERED_PHOTOS_def)
qed

section \<open>Theorems about the gesture debouncer\<close>

lemma gestureEvents_append: "gestureEvents (xs @ ys) = gestureEvents xs @ gestureEvents ys"
  by (induction xs rule: gestureEvents.induct) simp_all

lemma gestureEvents_moveOf: "gestureEvents (moveOf lms) = []"
  by (simp add: moveOf_def Let_def split: list.splits)

lemma debounce_low:
  "score \<le> 0.5 \<Longrightarrow>
   debounce debug name score r = (r\<lparr>gestureCount := 0, lastGesture := None\<rparr>, [])"
  by (simp add: debounce_def)

lemma debounce_new_label:
  "0.5 < score \<Longrightarrow> lastGesture r \<noteq> Some name \<Longrightarrow>
   debounce debug name score r = (r\<lparr>lastGesture := Some name, gestureCount := 1\<rparr>, [])"
  by (auto simp add: debounce_def Let_def)

lemma debounce_same_quiet:
  "0.5 < score \<Longrightarrow> lastGesture r = Some name \<Longrightarrow> gestureCount r < 5 \<Longrightarrow>
   debounce debug name score r = (r\<lparr>gestureCount := gestureCount r + 1\<rparr>, [])"
  by (simp add: debounce_def Let_def)

lemma debounce_same_fire:
  "0.5 < score \<Longrightarrow> lastGesture r = Some name \<Longrightarrow> 5 \<le> gestureCount r \<Longrightarrow>
   targetStateOf name = Some t \<Longrightarrow> currentState r \<noteq> Some t \<Longrightarrow>
   fst (debounce debug name score r) = r\<lparr>gestureCount := gestureCount r + 1, currentState := Some t\<rparr>
   \<and> gestureEvents (snd (debounce debug name score r)) = [t]"
  by (auto simp add: debounce_def Let_def)

lemma debounce_fires_only:
  assumes "gestureEvents (snd (debounce debug name score r)) \<noteq> []"
  shows "0.5 < score \<and> lastGesture r = Some name \<and> 5 \<le> gestureCount r
     \<and> (\<exists>t. targetStateOf name = Some t \<and> currentState r \<noteq> Some t
          \<and> gestureEvents (snd (debounce debug name score r)) = [t]
          \<and> currentState (fst (debounce debug name score r)) = Some t)
     \<and> gestureCount (fst (debounce debug name score r)) = gestureCount r + 1
     \<and> 5 < gestureCount (fst (debounce debug name score r))"
  using assms
  by (auto simp add: debounce_def Let_def split: option.splits if_splits)

lemma processResults_events:
  "gestureEvents (snd (processResults debug results r)) =
     (case gestures results of
        [] \<Rightarrow> []
      | (name, score) # _ \<Rightarrow> gestureEvents (snd (debounce debug name score r)))"
  by (simp add: processResults_def gestureEvents_append gestureEvents_moveOf
      split: list.splits prod.splits)

lemma processResults_refs:
  "fst (processResults debug results r) =
     (case gestures results of
        [] \<Rightarrow> r\<lparr>gestureCount := 0, lastGesture := None\<rparr>
      | (name, score) # _ \<Rightarrow> fst (debounce debug name score r))"
  by (simp add: processResults_def split: list.splits prod.splits)

lemma latched_debounce: "latched r \<Longrightarrow> latched (fst (debounce debug name score r))"
  by (auto simp add: latched_def debounce_def Let_def split: option.splits if_splits)

lemma latched_processResults: "latched r \<Longrightarrow> latched (fst (processResults debug results r))"
  by (auto simp add: processResults_refs latched_debounce split: list.splits)
     (simp add: latched_def)

lemma predictAll_fst:
  "fst (predictAll debug r (x # xs)) = fst (predictAll debug (fst (processResults debug x r)) xs)"
  by (simp add: split_beta Let_def)

lemma predictAll_events:
  "gestureEvents (snd (predictAll debug r (x # xs))) =
     gestureEvents (snd (processResults debug x r))
     @ gestureEvents (snd (predictAll debug (fst (processResults debug x r)) xs))"
  by (simp add: split_beta Let_def gestureEvents_append)

lemma latched_predictAll: "latched r \<Longrightarrow> latched (fst (predictAll debug r xs))"
proof (induction xs arbitrary: r)
  case Nil
  then show ?case by simp
next
  case (Cons x xs)
  then show ?case
    by (simp only: predictAll_fst latched_processResults)
qed

lemma latched_initial: "latched initialRefs"
  by (simp add: latched_def initialRefs_def)

lemma latched_fires_at_six:
  assumes "latched r" and "gestureEvents (snd (debounce debug name score r)) \<noteq> []"
  shows "gestureCount (fst (debounce debug name score r)) = 6"
proof -
  from debounce_fires_only [OF assms(2)] obtain t where
    f: "lastGesture r = Some name" "5 \<le> gestureCount r" "targetStateOf name = Some t"
       "currentState r \<noteq> Some t"
       "gestureCount (fst (debounce debug name score r)) = gestureCount r + 1"
    by blast
  have "\<not> 5 < gestureCount r"
  proof
    assume "5 < gestureCount r"
    with assms(1) f show False by (simp add: latched_def)
  qed
  with f show ?thesis by simp
qed

lemma qualifying_step:
  assumes "qualifying name x"
  obtains score where "0.5 < score"
    "processResults debug x r = (fst (debounce debug name score r),
       snd (debounce debug name score r) @ moveOf (landmarks x))"
  using assms
  by (auto simp add: qualifying_def processResults_def split: list.splits prod.splits)

lemma run_continue:
  "lastGesture r = Some name \<Longrightarrow> \<forall>x\<in>set xs. qualifying name x \<Longrightarrow>
   gestureCount r + length xs \<le> 5 \<Longrightarrow>
   fst (predictAll debug r xs) = r\<lparr>gestureCount := gestureCount r + length xs\<rparr>
   \<and> gestureEvents (snd (predictAll debug r xs)) = []"
proof (induction xs arbitrary: r)
  case Nil
  then show ?case by simp
next
  case (Cons x xs)
  from Cons.prems have q: "qualifying name x" by simp
  from Cons.prems have c: "gestureCount r < 5" by simp
  obtain score where s: "0.5 < score"
    "processResults debug x r = (fst (debounce debug name score r),
       snd (debounce debug name score r) @ moveOf (landmarks x))"
    using qualifying_step [OF q] by blast
  let ?r1 = "r\<lparr>gestureCount := gestureCount r + 1\<rparr>"
  have d: "debounce debug name score r = (?r1, [])"
    using debounce_same_quiet [OF s(1) Cons.prems(1) c] .
  have p: "fst (processResults debug x r) = ?r1"
    "gestureEvents (snd (processResults debug x r)) = []"
    using s(2) d by (simp_all add: gestureEvents_moveOf)
  have l1: "lastGesture ?r1 = Some name" using Cons.prems(1) by simp
  have q1: "\<forall>x\<in>set xs. qualifying name x" using Cons.prems(2) by simp
  have c1: "gestureCount ?r1 + length xs \<le> 5" using Cons.prems(3) by simp
  have ih: "fst (predictAll debug ?r1 xs) = ?r1\<lparr>gestureCount := gestureCount ?r1 + length xs\<rparr>
     \<and> gestureEvents (snd (predictAll debug ?r1 xs)) = []"
    using Cons.IH [OF l1 q1 c1] .
  show ?case
    using ih p by (simp only: predictAll_fst predictAll_events) simp
qed

lemma run_start:
  assumes "lastGesture r \<noteq> Some name" and "\<forall>x\<in>set xs. qualifying name x"
    and "xs \<noteq> []" and "length xs \<le> 5"
  shows "fst (predictAll debug r xs) = r\<lparr>lastGesture := Some name, gestureCount := length xs\<rparr>
     \<and> gestureEvents (snd (predictAll debug r xs)) = []"
proof -
  from assms(3) obtain x ys where xs: "xs = x # ys" by (cases xs) auto
  from assms(2) xs have q: "qualifying name x" by simp
  obtain score where s: "0.5 < score"
    "processResults debug x r = (fst (debounce debug name score r),
       snd (debounce debug name score r) @ moveOf (landmarks x))"
    using qualifying_step [OF q] by blast
  let ?r1 = "r\<lparr>lastGesture := Some name, gestureCount := 1\<rparr>"
  have d: "debounce debug name score r = (?r1, [])"
    using debounce_new_label [OF s(1) assms(1)] .
  have p: "fst (processResults debug x r) = ?r1"
    "gestureEvents (snd (processResults debug x r)) = []"
    using s(2) d by (simp_all add: gestureEvents_moveOf)
  have l1: "lastGesture ?r1 = Some name" by simp
  have q1: "\<forall>x\<in>set ys. qualifying name x" using assms(2) xs by simp
  have c1: "gestureCount ?r1 + length ys \<le> 5" using assms(4) xs by simp
  have rest: "fst (predictAll debug ?r1 ys) = ?r1\<lparr>gestureCount := gestureCount ?r1 + length ys\<rparr>
     \<and> gestureEvents (snd (predictAll debug ?r1 ys)) = []"
    using run_continue [OF l1 q1 c1] .
  show ?thesis
    unfolding xs using rest p by (simp only: predictAll_fst predictAll_events) simp
qed

lemma predictAll_append_fst:
  "fst (predictAll debug r (xs @ ys)) = fst (predictAll debug (fst (predictAll debug r xs)) ys)"
  by (induction xs arbitrary: r) (simp_all add: split_beta Let_def)

lemma predictAll_append_events:
  "gestureEvents (snd (predictAll debug r (xs @ ys))) =
     gestureEvents (snd (predictAll debug r xs))
     @ gestureEvents (snd (predictAll debug (fst (predictAll debug r xs)) ys))"
  by (induction xs arbitrary: r) (simp_all add: split_beta Let_def gestureEvents_append)

lemma run_sixth:
  assumes "lastGesture r \<noteq> Some name" and "\<forall>x\<in>set xs. qualifying name x"
    and "length xs = 5" and "qualifying name y"
    and "targetStateOf name = Some t" and "currentState r \<noteq> Some t"
  shows "gestureEvents (snd (predictAll debug r (xs @ [y]))) = [t]
     \<and> fst (predictAll debug r (xs @ [y]))
        = \<lparr> lastGesture = Some name, gestureCount = 6, currentState = Some t \<rparr>"
proof -
  let ?r5 = "r\<lparr>lastGesture := Some name, gestureCount := 5\<rparr>"
  have ne: "xs \<noteq> []" using assms(3) by auto
  have five: "fst (predictAll debug r xs) = ?r5"
    "gestureEvents (snd (predictAll debug r xs)) = []"
    using run_start [OF assms(1) assms(2) ne, of debug] assms(3) by simp_all
  obtain score where s: "0.5 < score"
    "processResults debug y ?r5 = (fst (debounce debug name score ?r5),
       snd (debounce debug name score ?r5) @ moveOf (landmarks y))"
    using qualifying_step [OF assms(4)] by blast
  have f: "fst (debounce debug name score ?r5)
             = ?r5\<lparr>gestureCount := gestureCount ?r5 + 1, currentState := Some t\<rparr>
     \<and> gestureEvents (snd (debounce debug name score ?r5)) = [t]"
    using assms(5,6) s(1) by (intro debounce_same_fire) simp_all
  have last: "fst (predictAll debug ?r5 [y])
                = \<lparr> lastGesture = Some name, gestureCount = 6, currentState = Some t \<rparr>"
    "gestureEvents (snd (predictAll debug ?r5 [y])) = [t]"
    using s(2) f by (simp_all add: gestureEvents_append gestureEvents_moveOf)
  show ?thesis
    using five last by (simp only: predictAll_append_fst predictAll_append_events) simp
qed


lemma qualifying_new_label:
  assumes "qualifying name x" and "lastGesture r \<noteq> Some name"
  shows "fst (processResults debug x r) = r\<lparr>lastGesture := Some name, gestureCount := 1\<rparr>"
proof -
  obtain score where s: "0.5 < score"
    "processResults debug x r = (fst (debounce debug name score r),
       snd (debounce debug name score r) @ moveOf (landmarks x))"
    using qualifying_step [OF assms(1)] by blast
  show ?thesis
    using s(2) debounce_new_label [OF s(1) assms(2), of debug] by simp
qed

lemma processResults_fires_only:
  assumes "gestureEvents (snd (processResults debug results r)) \<noteq> []"
  shows "\<exists>name score rest t.
          gestures results = (name, score) # rest \<and> 0.5 < score
        \<and> lastGesture r = Some name \<and> 5 \<le> gestureCount r
        \<and> gestureCount (fst (processResults debug results r)) = gestureCount r + 1
        \<and> targetStateOf name = Some t \<and> currentState r \<noteq> Some t
        \<and> gestureEvents (snd (processResults debug results r)) = [t]
        \<and> currentState (fst (processResults debug results r)) = Some t"
proof (cases "gestures results")
  case Nil
  with assms show ?thesis by (simp add: processResults_events)
next
  case (Cons a rest)
  obtain name score where a: "a = (name, score)" by (cases a)
  have ev: "gestureEvents (snd (processResults debug results r))
              = gestureEvents (snd (debounce debug name score r))"
    by (simp add: processResults_events Cons a)
  have rf: "fst (processResults debug results r) = fst (debounce debug name score r)"
    by (simp add: processResults_refs Cons a)
  from assms ev have "gestureEvents (snd (debounce debug name score r)) \<noteq> []" by simp
  from debounce_fires_only [OF this] show ?thesis
    unfolding ev rf using Cons a by blast
qed

lemma processResults_fires_at_six:
  assumes "latched r" and "gestureEvents (snd (processResults debug results r)) \<noteq> []"
  shows "gestureCount (fst (processResults debug results r)) = 6"
proof (cases "gestures results")
  case Nil
  with assms(2) show ?thesis by (simp add: processResults_events)
next
  case (Cons a rest)
  obtain name score where a: "a = (name, score)" by (cases a)
  have ev: "gestureEvents (snd (processResults debug results r))
              = gestureEvents (snd (debounce debug name score r))"
    by (simp add: processResults_events Cons a)
  have rf: "fst (processResults debug results r) = fst (debounce debug name score r)"
    by (simp add: processResults_refs Cons a)
  from assms(2) ev have "gestureEvents (snd (debounce debug name score r)) \<noteq> []" by simp
  from latched_fires_at_six [OF assms(1) this] show ?thesis
    by (simp add: rf)
qed

lemma qualifying_confident: "qualifying name x \<longleftrightarrow> confident x = Some name"
  by (auto simp add: qualifying_def confident_def split: list.splits)

lemma confident_None_step:
  assumes "confident x = None"
  shows "fst (processResults debug x r) = r\<lparr>gestureCount := 0, lastGesture := None\<rparr>"
    and "gestureEvents (snd (processResults debug x r)) = []"
  using assms
  by (auto simp add: confident_def processResults_def debounce_low gestureEvents_moveOf
      split: list.splits if_splits)

lemma debounce_refs:
  assumes "0.5 < score"
  shows "lastGesture (fst (debounce debug name score r)) = Some name"
    and "gestureCount (fst (debounce debug name score r))
           = (if lastGesture r = Some name then gestureCount r + 1 else 1)"
  using assms
  by (auto simp add: debounce_def Let_def split: option.splits)

lemma confident_Some_step:
  assumes "confident x = Some name"
  shows "lastGesture (fst (processResults debug x r)) = Some name"
    and "gestureCount (fst (processResults debug x r))
           = (if lastGesture r = Some name then gestureCount r + 1 else 1)"
proof -
  from assms have q: "qualifying name x" by (simp add: qualifying_confident)
  obtain score where s: "0.5 < score"
    "processResults debug x r = (fst (debounce debug name score r),
       snd (debounce debug name score r) @ moveOf (landmarks x))"
    using qualifying_step [OF q] by blast
  show "lastGesture (fst (processResults debug x r)) = Some name"
    using s(2) debounce_refs(1) [OF s(1)] by simp
  show "gestureCount (fst (processResults debug x r))
           = (if lastGesture r = Some name then gestureCount r + 1 else 1)"
    using s(2) debounce_refs(2) [OF s(1)] by simp
qed

lemma lastLabel_snoc: "lastLabel (fs @ [x]) = confident x"
  by (simp add: lastLabel_def)

lemma runFrom_rev:
  "runFrom name (rev fs) = (if lastLabel fs = Some name then trailingRun fs else 0)"
  by (cases "rev fs") (simp_all add: lastLabel_def trailingRun_def)

lemma trailingRun_snoc:
  "trailingRun (fs @ [x]) =
     (case confident x of
        None \<Rightarrow> 0
      | Some name \<Rightarrow> Suc (if lastLabel fs = Some name then trailingRun fs else 0))"
  by (simp add: trailingRun_def [of "fs @ [x]"] lastLabel_snoc runFrom_rev split: option.splits)

lemma refsAfter_snoc:
  "refsAfter debug (fs @ [x]) = fst (processResults debug x (refsAfter debug fs))"
  by (simp add: refsAfter_def predictAll_append_fst split_beta Let_def)

lemma history_refs:
  "gestureCount (refsAfter debug fs) = trailingRun fs
   \<and> lastGesture (refsAfter debug fs) = lastLabel fs"
proof (induction fs rule: rev_induct)
  case Nil
  show ?case
    by (simp add: refsAfter_def initialRefs_def trailingRun_def lastLabel_def)
next
  case (snoc x fs)
  show ?case
  proof (cases "confident x")
    case None
    then show ?thesis
      by (simp add: refsAfter_snoc confident_None_step(1) trailingRun_snoc lastLabel_snoc)
  next
    case (Some name)
    then show ?thesis
      using snoc.IH
      by (simp add: refsAfter_snoc confident_Some_step trailingRun_snoc lastLabel_snoc)
  qed
qed

lemma latched_refsAfter: "latched (refsAfter debug fs)"
  unfolding refsAfter_def by (rule latched_predictAll [OF latched_initial])

lemma events_snoc:
  "gestureEvents (snd (predictAll debug initialRefs (fs @ [x])))
     = gestureEvents (snd (predictAll debug initialRefs fs)) @ eventsOn debug fs x"
  by (simp add: predictAll_append_events eventsOn_def refsAfter_def split_beta Let_def)

lemma debounce_latch:
  "currentState (fst (debounce debug name score r))
     = (case rev (gestureEvents (snd (debounce debug name score r))) of
          [] \<Rightarrow> currentState r
        | t # _ \<Rightarrow> Some t)"
  by (auto simp add: debounce_def Let_def split: option.splits)

lemma processResults_latch:
  "currentState (fst (processResults debug x r))
     = (case rev (gestureEvents (snd (processResults debug x r))) of
          [] \<Rightarrow> currentState r
        | t # _ \<Rightarrow> Some t)"
  by (cases "gestures x")
     (auto simp add: processResults_refs processResults_events debounce_latch
        split: list.splits)

lemma history_latch:
  "currentState (refsAfter debug fs) = lastEvent (snd (predictAll debug initialRefs fs))"
proof (induction fs rule: rev_induct)
  case Nil
  show ?case by (simp add: refsAfter_def initialRefs_def lastEvent_def)
next
  case (snoc x fs)
  have "currentState (refsAfter debug (fs @ [x]))
          = (case rev (eventsOn debug fs x) of
               [] \<Rightarrow> currentState (refsAfter debug fs)
             | t # _ \<Rightarrow> Some t)"
    by (simp add: refsAfter_snoc processResults_latch eventsOn_def)
  also have "\<dots> = lastEvent (snd (predictAll debug initialRefs (fs @ [x])))"
    using snoc.IH
    by (cases "eventsOn debug fs x" rule: rev_cases)
       (simp_all add: lastEvent_def events_snoc)
  finally show ?case .
qed

lemma runFrom_meaning:
  "runFrom name ys \<le> length ys
   \<and> (\<forall>y\<in>set (take (runFrom name ys) ys). confident y = Some name)
   \<and> (runFrom name ys < length ys \<longrightarrow> confident (ys ! runFrom name ys) \<noteq> Some name)"
  by (induction ys) auto

lemma trailingRun_meaning:
  "trailingRun fs \<le> length fs
   \<and> (\<forall>y\<in>set (take (trailingRun fs) (rev fs)). confident y = lastLabel fs)
   \<and> (trailingRun fs < length fs \<longrightarrow>
        lastLabel fs = None \<or> confident (rev fs ! trailingRun fs) \<noteq> lastLabel fs)"
proof (cases "lastLabel fs")
  case None
  then show ?thesis by (simp add: trailingRun_def)
next
  case (Some name)
  then show ?thesis
    using runFrom_meaning [of name "rev fs"] by (simp add: trailingRun_def)
qed

lemma trailingRun_pos: "lastLabel fs \<noteq> None \<longleftrightarrow> 0 < trailingRun fs"
  by (cases "rev fs") (auto simp add: trailingRun_def lastLabel_def split: option.splits)

lemma targetStateOf_cases:
  "targetStateOf name =
     (if name = ''Closed_Fist'' then Some FORMED
      else if name = ''Open_Palm'' then Some CHAOS else None)"
  by (simp add: targetStateOf_def)

lemma eventsOn_fires:
  assumes "eventsOn debug fs x \<noteq> []"
  shows "\<exists>label t. lastLabel (fs @ [x]) = Some label \<and> trailingRun (fs @ [x]) = 6
           \<and> targetStateOf label = Some t
           \<and> currentState (refsAfter debug fs) \<noteq> Some t
           \<and> eventsOn debug fs x = [t]"
proof -
  let ?r = "refsAfter debug fs"
  from assms have ne: "gestureEvents (snd (processResults debug x ?r)) \<noteq> []"
    by (simp add: eventsOn_def)
  from processResults_fires_only [OF ne] obtain name score rest t where
    f: "gestures x = (name, score) # rest" "0.5 < score" "lastGesture ?r = Some name"
       "targetStateOf name = Some t" "currentState ?r \<noteq> Some t"
       "gestureEvents (snd (processResults debug x ?r)) = [t]"
       "gestureCount (fst (processResults debug x ?r)) = gestureCount ?r + 1"
    by blast
  have six: "gestureCount (fst (processResults debug x ?r)) = 6"
    using processResults_fires_at_six [OF latched_refsAfter ne] .
  have c: "confident x = Some name"
    using f(1,2) by (simp add: confident_def)
  have h: "gestureCount ?r = trailingRun fs" "lastLabel fs = Some name"
    using history_refs [of debug fs] f(3) by simp_all
  have "trailingRun (fs @ [x]) = 6"
    using six f(7) h c by (simp add: trailingRun_snoc)
  with c f show ?thesis
    by (auto simp add: lastLabel_snoc eventsOn_def)
qed

lemma eventsOn_sixth:
  assumes "trailingRun (fs @ [x]) = 6" and "lastLabel (fs @ [x]) = Some label"
    and "targetStateOf label = Some t" and "currentState (refsAfter debug fs) \<noteq> Some t"
  shows "eventsOn debug fs x = [t]"
proof -
  let ?r = "refsAfter debug fs"
  from assms(2) have c: "confident x = Some label" by (simp add: lastLabel_snoc)
  then have q: "qualifying label x" by (simp add: qualifying_confident)
  from assms(1) c have l: "lastLabel fs = Some label" and n: "trailingRun fs = 5"
    by (simp_all add: trailingRun_snoc split: if_splits)
  have r: "lastGesture ?r = Some label" "5 \<le> gestureCount ?r"
    using history_refs [of debug fs] l n by simp_all
  obtain score where s: "0.5 < score"
    "processResults debug x ?r = (fst (debounce debug label score ?r),
       snd (debounce debug label score ?r) @ moveOf (landmarks x))"
    using qualifying_step [OF q] by blast
  from debounce_same_fire [OF s(1) r(1) r(2) assms(3) assms(4), of debug]
  have "gestureEvents (snd (debounce debug label score ?r)) = [t]" by simp
  then show ?thesis
    by (simp add: eventsOn_def s(2) gestureEvents_append gestureEvents_moveOf)
qed

text \<open>
  C2. Take any sequence of frames fed to a freshly mounted controller, and the next frame.
  The counter is the length of the run of confident same-label samples that ends with the
  latest frame, the last label is that of the latest frame, and the latched scene is the
  latest event emitted. The next frame emits an event only if it completes a run of
  exactly six: it and the five frames before it are samples of one label with confidence
  above 0.5 (and the frame before those, if any, is not), the label is \<open>Open_Palm\<close> (event
  CHAOS) or \<open>Closed_Fist\<close> (event FORMED), and that scene differs from the latched one; under
  these conditions it does emit exactly that event. A run of any other length emits
  nothing, and so does a label that maps to no scene or to the latched one; every other
  label maps to no scene. A qualifying sample with a label other than the previous one
  sets the counter to 1. The same facts are stated for one frame from arbitrary refs.
\<close>

theorem debounce_transition_events:
  "(gestureEvents (snd (processResults debug results r)) \<noteq> [] \<longrightarrow>
      (\<exists>name score rest t.
          gestures results = (name, score) # rest \<and> 0.5 < score
        \<and> lastGesture r = Some name \<and> 5 \<le> gestureCount r
        \<and> gestureCount (fst (processResults debug results r)) = gestureCount r + 1
        \<and> targetStateOf name = Some t \<and> currentState r \<noteq> Some t
        \<and> gestureEvents (snd (processResults debug results r)) = [t]
        \<and> currentState (fst (processResults debug results r)) = Some t))
   \<and> (latched r \<and> gestureEvents (snd (processResults debug results r)) \<noteq> [] \<longrightarrow>
        gestureCount (fst (processResults debug results r)) = 6)
   \<and> latched (fst (predictAll debug initialRefs frames))
   \<and> (lastGesture r \<noteq> Some label \<and> (\<forall>x\<in>set xs. qualifying label x)
        \<and> xs \<noteq> [] \<and> length xs \<le> 5 \<longrightarrow>
        gestureEvents (snd (predictAll debug r xs)) = []
        \<and> gestureCount (fst (predictAll debug r xs)) = length xs)
   \<and> (lastGesture r \<noteq> Some label \<and> (\<forall>x\<in>set xs. qualifying label x)
        \<and> length xs = 5 \<and> qualifying label y
        \<and> targetStateOf label = Some target \<and> currentState r \<noteq> Some target \<longrightarrow>
        gestureEvents (snd (predictAll debug r (xs @ [y]))) = [target]
        \<and> gestureCount (fst (predictAll debug r (xs @ [y]))) = 6)
   \<and> (qualifying label y \<and> lastGesture r \<noteq> Some label \<longrightarrow>
        gestureCount (fst (processResults debug y r)) = 1
        \<and> lastGesture (fst (processResults debug y r)) = Some label)
   \<and> targetStateOf ''Open_Palm'' = Some CHAOS
   \<and> targetStateOf ''Closed_Fist'' = Some FORMED
   \<and> gestureCount (refsAfter debug fs) = trailingRun fs
   \<and> lastGesture (refsAfter debug fs) = lastLabel fs
   \<and> currentState (refsAfter debug fs) = lastEvent (snd (predictAll debug initialRefs fs))
   \<and> gestureEvents (snd (predictAll debug initialRefs (fs @ [x])))
       = gestureEvents (snd (predictAll debug initialRefs fs)) @ eventsOn debug fs x
   \<and> (eventsOn debug fs x \<noteq> [] \<longrightarrow>
        (\<exists>name t.
            (name = ''Open_Palm'' \<and> t = CHAOS \<or> name = ''Closed_Fist'' \<and> t = FORMED)
          \<and> 6 \<le> length (fs @ [x])
          \<and> (\<forall>y\<in>set (take 6 (rev (fs @ [x]))). qualifying name y)
          \<and> (6 < length (fs @ [x]) \<longrightarrow> \<not> qualifying name (rev (fs @ [x]) ! 6))
          \<and> lastEvent (snd (predictAll debug initialRefs fs)) \<noteq> Some t
          \<and> eventsOn debug fs x = [t]))
   \<and> (trailingRun (fs @ [x]) \<noteq> 6 \<longrightarrow> eventsOn debug fs x = [])
   \<and> (trailingRun (fs @ [x]) = 6 \<and> lastLabel (fs @ [x]) = Some label
        \<and> targetStateOf label = Some target
        \<and> lastEvent (snd (predictAll debug initialRefs fs)) \<noteq> Some target \<longrightarrow>
        eventsOn debug fs x = [target])
   \<and> (lastLabel (fs @ [x]) = Some label
        \<and> (targetStateOf label = None
            \<or> targetStateOf label = lastEvent (snd (predictAll debug initialRefs fs))) \<longrightarrow>
        eventsOn debug fs x = [])
   \<and> targetStateOf label =
        (if label = ''Closed_Fist'' then Some FORMED
         else if label = ''Open_Palm'' then Some CHAOS else None)
   \<and> trailingRun fs \<le> length fs
   \<and> (\<forall>y\<in>set (take (trailingRun fs) (rev fs)). confident y = lastLabel fs)
   \<and> (trailingRun fs < length fs \<longrightarrow>
        lastLabel fs = None \<or> confident (rev fs ! trailingRun fs) \<noteq> lastLabel fs)
   \<and> (lastLabel fs \<noteq> None \<longleftrightarrow> 0 < trailingRun fs)
   \<and> lastLabel (fs @ [x]) = confident x
   \<and> (qualifying label x \<longleftrightarrow> confident x = Some label)"
proof -
  have a: "gestureEvents (snd (processResults debug results r)) \<noteq> [] \<longrightarrow>
      (\<exists>name score rest t.
          gestures results = (name, score) # rest \<and> 0.5 < score
        \<and> lastGesture r = Some name \<and> 5 \<le> gestureCount r
        \<and> gestureCount (fst (processResults debug results r)) = gestureCount r + 1
        \<and> targetStateOf name = Some t \<and> currentState r \<noteq> Some t
        \<and> gestureEvents (snd (processResults debug results r)) = [t]
        \<and> currentState (fst (processResults debug results r)) = Some t)"
    using processResults_fires_only by blast
  have b: "latched r \<and> gestureEvents (snd (processResults debug results r)) \<noteq> [] \<longrightarrow>
        gestureCount (fst (processResults debug results r)) = 6"
    using processResults_fires_at_six by blast
  have c: "latched (fst (predictAll debug initialRefs frames))"
    using latched_predictAll [OF latched_initial] .
  have d: "lastGesture r \<noteq> Some label \<and> (\<forall>x\<in>set xs. qualifying label x)
        \<and> xs \<noteq> [] \<and> length xs \<le> 5 \<longrightarrow>
        gestureEvents (snd (predictAll debug r xs)) = []
        \<and> gestureCount (fst (predictAll debug r xs)) = length xs"
  proof
    assume h: "lastGesture r \<noteq> Some label \<and> (\<forall>x\<in>set xs. qualifying label x)
        \<and> xs \<noteq> [] \<and> length xs \<le> 5"
    then have "fst (predictAll debug r xs)
                 = r\<lparr>lastGesture := Some label, gestureCount := length xs\<rparr>
       \<and> gestureEvents (snd (predictAll debug r xs)) = []"
      by (intro run_start) blast+
    then show "gestureEvents (snd (predictAll debug r xs)) = []
        \<and> gestureCount (fst (predictAll debug r xs)) = length xs"
      by simp
  qed
  have e: "lastGesture r \<noteq> Some label \<and> (\<forall>x\<in>set xs. qualifying label x)
        \<and> length xs = 5 \<and> qualifying label y
        \<and> targetStateOf label = Some target \<and> currentState r \<noteq> Some target \<longrightarrow>
        gestureEvents (snd (predictAll debug r (xs @ [y]))) = [target]
        \<and> gestureCount (fst (predictAll debug r (xs @ [y]))) = 6"
  proof
    assume h: "lastGesture r \<noteq> Some label \<and> (\<forall>x\<in>set xs. qualifying label x)
        \<and> length xs = 5 \<and> qualifying label y
        \<and> targetStateOf label = Some target \<and> currentState r \<noteq> Some target"
    then have "gestureEvents (snd (predictAll debug r (xs @ [y]))) = [target]
       \<and> fst (predictAll debug r (xs @ [y]))
          = \<lparr> lastGesture = Some label, gestureCount = 6, currentState = Some target \<rparr>"
      by (intro run_sixth) blast+
    then show "gestureEvents (snd (predictAll debug r (xs @ [y]))) = [target]
        \<and> gestureCount (fst (predictAll debug r (xs @ [y]))) = 6"
      by simp
  qed
  have f: "qualifying label y \<and> lastGesture r \<noteq> Some label \<longrightarrow>
        gestureCount (fst (processResults debug y r)) = 1
        \<and> lastGesture (fst (processResults debug y r)) = Some label"
    using qualifying_new_label [of label y r debug] by auto
  have g: "targetStateOf ''Open_Palm'' = Some CHAOS"
    "targetStateOf ''Closed_Fist'' = Some FORMED"
    by (simp_all add: targetStateOf_def)
  have n1: "gestureCount (refsAfter debug fs) = trailingRun fs"
    "lastGesture (refsAfter debug fs) = lastLabel fs"
    using history_refs [of debug fs] by simp_all
  have n2: "currentState (refsAfter debug fs) = lastEvent (snd (predictAll debug initialRefs fs))"
    by (rule history_latch)
  have n3: "gestureEvents (snd (predictAll debug initialRefs (fs @ [x])))
       = gestureEvents (snd (predictAll debug initialRefs fs)) @ eventsOn debug fs x"
    by (rule events_snoc)
  have n4: "eventsOn debug fs x \<noteq> [] \<longrightarrow>
        (\<exists>name t.
            (name = ''Open_Palm'' \<and> t = CHAOS \<or> name = ''Closed_Fist'' \<and> t = FORMED)
          \<and> 6 \<le> length (fs @ [x])
          \<and> (\<forall>y\<in>set (take 6 (rev (fs @ [x]))). qualifying name y)
          \<and> (6 < length (fs @ [x]) \<longrightarrow> \<not> qualifying name (rev (fs @ [x]) ! 6))
          \<and> lastEvent (snd (predictAll debug initialRefs fs)) \<noteq> Some t
          \<and> eventsOn debug fs x = [t])"
  proof
    assume "eventsOn debug fs x \<noteq> []"
    from eventsOn_fires [OF this] obtain name t where
      k: "lastLabel (fs @ [x]) = Some name" "trailingRun (fs @ [x]) = 6"
         "targetStateOf name = Some t" "currentState (refsAfter debug fs) \<noteq> Some t"
         "eventsOn debug fs x = [t]"
      by blast
    have m: "(name = ''Open_Palm'' \<and> t = CHAOS \<or> name = ''Closed_Fist'' \<and> t = FORMED)"
      using k(3) by (simp add: targetStateOf_cases split: if_splits)
    note tm = trailingRun_meaning [of "fs @ [x]", unfolded k(1) k(2)]
    have l: "6 \<le> length (fs @ [x])" using tm by blast
    have q: "\<forall>y\<in>set (take 6 (rev (fs @ [x]))). qualifying name y"
      using tm by (simp add: qualifying_confident)
    have b: "6 < length (fs @ [x]) \<longrightarrow> \<not> qualifying name (rev (fs @ [x]) ! 6)"
      using tm by (simp add: qualifying_confident)
    have e: "lastEvent (snd (predictAll debug initialRefs fs)) \<noteq> Some t"
      using k(4) by (simp add: history_latch)
    from m l q b e k(5) show "\<exists>name t.
            (name = ''Open_Palm'' \<and> t = CHAOS \<or> name = ''Closed_Fist'' \<and> t = FORMED)
          \<and> 6 \<le> length (fs @ [x])
          \<and> (\<forall>y\<in>set (take 6 (rev (fs @ [x]))). qualifying name y)
          \<and> (6 < length (fs @ [x]) \<longrightarrow> \<not> qualifying name (rev (fs @ [x]) ! 6))
          \<and> lastEvent (snd (predictAll debug initialRefs fs)) \<noteq> Some t
          \<and> eventsOn debug fs x = [t]"
      by blast
  qed
  have n5: "trailingRun (fs @ [x]) \<noteq> 6 \<longrightarrow> eventsOn debug fs x = []"
    using eventsOn_fires [of debug fs x] by blast
  have n6: "trailingRun (fs @ [x]) = 6 \<and> lastLabel (fs @ [x]) = Some label
        \<and> targetStateOf label = Some target
        \<and> lastEvent (snd (predictAll debug initialRefs fs)) \<noteq> Some target \<longrightarrow>
        eventsOn debug fs x = [target]"
    using eventsOn_sixth [of fs x label target debug] by (simp add: history_latch)
  have n7: "lastLabel (fs @ [x]) = Some label
        \<and> (targetStateOf label = None
            \<or> targetStateOf label = lastEvent (snd (predictAll debug initialRefs fs))) \<longrightarrow>
        eventsOn debug fs x = []"
  proof (rule impI, rule ccontr)
    assume h: "lastLabel (fs @ [x]) = Some label
        \<and> (targetStateOf label = None
            \<or> targetStateOf label = lastEvent (snd (predictAll debug initialRefs fs)))"
    assume "eventsOn debug fs x \<noteq> []"
    from eventsOn_fires [OF this] obtain name t where
      k: "lastLabel (fs @ [x]) = Some name" "targetStateOf name = Some t"
         "currentState (refsAfter debug fs) \<noteq> Some t"
      by blast
    from h k(1) have "name = label" by simp
    with h k(2) k(3) show False
      by (simp add: history_latch)
  qed
  have n8: "targetStateOf label =
        (if label = ''Closed_Fist'' then Some FORMED
         else if label = ''Open_Palm'' then Some CHAOS else None)"
    by (rule targetStateOf_cases)
  have n9: "trailingRun fs \<le> length fs"
    "\<forall>y\<in>set (take (trailingRun fs) (rev fs)). confident y = lastLabel fs"
    "trailingRun fs < length fs \<longrightarrow>
        lastLabel fs = None \<or> confident (rev fs ! trailingRun fs) \<noteq> lastLabel fs"
    using trailingRun_meaning [of fs] by blast+
  have n10: "lastLabel fs \<noteq> None \<longleftrightarrow> 0 < trailingRun fs"
    by (rule trailingRun_pos)
  have n11: "lastLabel (fs @ [x]) = confident x"
    by (rule lastLabel_snoc)
  have n12: "qualifying label x \<longleftrightarrow> confident x = Some label"
    by (rule qualifying_confident)
  note facts = a b c d e f g n1 n2 n3 n4 n5 n6 n7 n8 n9 n10 n11 n12
  show ?thesis
    by (intro conjI) (rule facts)+
qed

text \<open>
  Five open palms emit nothing and the sixth emits CHAOS; a fist after three palms restarts
  the count at 1; three palms, a palm at confidence 0.3 (or a frame without a hand) and
  three more palms emit nothing; six \<open>Thumb_Up\<close> emit nothing.
\<close>

theorem debounce_transition_events_witness:
  "gestureEvents (snd (predictAll False initialRefs
      (replicate 5 (sample ''Open_Palm'' 0.9)))) = []
   \<and> gestureEvents (snd (predictAll False initialRefs
      (replicate 5 (sample ''Open_Palm'' 0.9) @ [sample ''Open_Palm'' 0.9]))) = [CHAOS]
   \<and> gestureCount (fst (processResults False (sample ''Closed_Fist'' 0.9)
       \<lparr> lastGesture = Some ''Open_Palm'', gestureCount = 3, currentState = None \<rparr>)) = 1
   \<and> eventsOn False
        [sample ''Open_Palm'' 0.9, sample ''Open_Palm'' 0.9, sample ''Open_Palm'' 0.9,
         sample ''Open_Palm'' 0.9, sample ''Open_Palm'' 0.9]
        (sample ''Open_Palm'' 0.9) = [CHAOS]
   \<and> eventsOn False
        [sample ''Open_Palm'' 0.9, sample ''Open_Palm'' 0.9, sample ''Open_Palm'' 0.9,
         sample ''Open_Palm'' 0.3, sample ''Open_Palm'' 0.9, sample ''Open_Palm'' 0.9]
        (sample ''Open_Palm'' 0.9) = []
   \<and> eventsOn False
        [sample ''Open_Palm'' 0.9, sample ''Open_Palm'' 0.9, sample ''Open_Palm'' 0.9,
         \<lparr> gestures = [], landmarks = [] \<rparr>, sample ''Open_Palm'' 0.9, sample ''Open_Palm'' 0.9]
        (sample ''Open_Palm'' 0.9) = []
   \<and> eventsOn False
        [sample ''Thumb_Up'' 0.9, sample ''Thumb_Up'' 0.9, sample ''Thumb_Up'' 0.9,
         sample ''Thumb_Up'' 0.9, sample ''Thumb_Up'' 0.9]
        (sample ''Thumb_Up'' 0.9) = []
   \<and> gestureCount (refsAfter False
        [sample ''Open_Palm'' 0.9, sample ''Open_Palm'' 0.9, sample ''Open_Palm'' 0.9,
         sample ''Open_Palm'' 0.3, sample ''Open_Palm'' 0.9, sample ''Open_Palm'' 0.9]) = 2"
proof -
  let ?x = "sample ''Open_Palm'' 0.9"
  let ?xs = "replicate 5 ?x"
  let ?y = "sample ''Closed_Fist'' 0.9"
  let ?r = "\<lparr> lastGesture = Some ''Open_Palm'', gestureCount = 3, currentState = None \<rparr>"
  let ?low = "sample ''Open_Palm'' 0.3"
  let ?none = "\<lparr> gestures = [], landmarks = [] \<rparr>"
  let ?th = "sample ''Thumb_Up'' 0.9"
  have q: "qualifying ''Open_Palm'' ?x"
    by (simp add: qualifying_def sample_def)
  have h1: "lastGesture initialRefs \<noteq> Some ''Open_Palm''
      \<and> (\<forall>x\<in>set ?xs. qualifying ''Open_Palm'' x) \<and> ?xs \<noteq> [] \<and> length ?xs \<le> 5"
    using q by (simp add: initialRefs_def)
  have h2: "lastGesture initialRefs \<noteq> Some ''Open_Palm''
      \<and> (\<forall>x\<in>set ?xs. qualifying ''Open_Palm'' x) \<and> length ?xs = 5
      \<and> qualifying ''Open_Palm'' ?x
      \<and> targetStateOf ''Open_Palm'' = Some CHAOS \<and> currentState initialRefs \<noteq> Some CHAOS"
    using q by (simp add: initialRefs_def targetStateOf_def)
  have h3: "qualifying ''Closed_Fist'' ?y \<and> lastGesture ?r \<noteq> Some ''Closed_Fist''"
    by (simp add: qualifying_def sample_def)
  note t1 = debounce_transition_events
    [where debug = False and results = ?x and r = initialRefs and frames = "[]"
       and label = "''Open_Palm''" and xs = ?xs and y = ?x and target = CHAOS
       and fs = "[?x, ?x, ?x, ?x, ?x]" and x = ?x]
  note t2 = debounce_transition_events
    [where debug = False and results = ?y and r = ?r and frames = "[]"
       and label = "''Closed_Fist''" and xs = "[]" and y = ?y and target = CHAOS
       and fs = "[?x, ?x, ?x, ?low, ?x, ?x]" and x = ?x]
  note t3 = debounce_transition_events
    [where debug = False and results = ?y and r = ?r and frames = "[]"
       and label = "''Thumb_Up''" and xs = "[]" and y = ?y and target = CHAOS
       and fs = "[?x, ?x, ?x, ?none, ?x, ?x]" and x = ?x]
  note t4 = debounce_transition_events
    [where debug = False and results = ?y and r = ?r and frames = "[]"
       and label = "''Thumb_Up''" and xs = "[]" and y = ?y and target = CHAOS
       and fs = "[?th, ?th, ?th, ?th, ?th]" and x = ?th]
  have d1: "lastGesture initialRefs \<noteq> Some ''Open_Palm''
      \<and> (\<forall>x\<in>set ?xs. qualifying ''Open_Palm'' x) \<and> ?xs \<noteq> [] \<and> length ?xs \<le> 5 \<longrightarrow>
      gestureEvents (snd (predictAll False initialRefs ?xs)) = []
      \<and> gestureCount (fst (predictAll False initialRefs ?xs)) = length ?xs"
    using t1 by (elim conjE) assumption
  have d2: "lastGesture initialRefs \<noteq> Some ''Open_Palm''
      \<and> (\<forall>x\<in>set ?xs. qualifying ''Open_Palm'' x) \<and> length ?xs = 5
      \<and> qualifying ''Open_Palm'' ?x
      \<and> targetStateOf ''Open_Palm'' = Some CHAOS \<and> currentState initialRefs \<noteq> Some CHAOS \<longrightarrow>
      gestureEvents (snd (predictAll False initialRefs (?xs @ [?x]))) = [CHAOS]
      \<and> gestureCount (fst (predictAll False initialRefs (?xs @ [?x]))) = 6"
    using t1 by (elim conjE) assumption
  have d3: "qualifying ''Closed_Fist'' ?y \<and> lastGesture ?r \<noteq> Some ''Closed_Fist'' \<longrightarrow>
      gestureCount (fst (processResults False ?y ?r)) = 1
      \<and> lastGesture (fst (processResults False ?y ?r)) = Some ''Closed_Fist''"
    using t2 by (elim conjE) assumption
  have w1: "gestureEvents (snd (predictAll False initialRefs ?xs)) = []"
    using mp [OF d1 h1] by (rule conjunct1)
  have w2: "gestureEvents (snd (predictAll False initialRefs (?xs @ [?x]))) = [CHAOS]"
    using mp [OF d2 h2] by (rule conjunct1)
  have w3: "gestureCount (fst (processResults False ?y ?r)) = 1"
    using mp [OF d3 h3] by (rule conjunct1)
  have five: "?xs = [?x, ?x, ?x, ?x, ?x]"
    by (simp add: numeral_eq_Suc)
  have e0: "lastEvent (snd (predictAll False initialRefs [?x, ?x, ?x, ?x, ?x])) \<noteq> Some CHAOS"
    using w1 unfolding five by (simp add: lastEvent_def)
  have k1: "trailingRun ([?x, ?x, ?x, ?x, ?x] @ [?x]) = 6
      \<and> lastLabel ([?x, ?x, ?x, ?x, ?x] @ [?x]) = Some ''Open_Palm''
      \<and> targetStateOf ''Open_Palm'' = Some CHAOS
      \<and> lastEvent (snd (predictAll False initialRefs [?x, ?x, ?x, ?x, ?x])) \<noteq> Some CHAOS"
    using e0
    by (simp add: trailingRun_def lastLabel_def confident_def sample_def targetStateOf_def)
  have d4: "trailingRun ([?x, ?x, ?x, ?x, ?x] @ [?x]) = 6
      \<and> lastLabel ([?x, ?x, ?x, ?x, ?x] @ [?x]) = Some ''Open_Palm''
      \<and> targetStateOf ''Open_Palm'' = Some CHAOS
      \<and> lastEvent (snd (predictAll False initialRefs [?x, ?x, ?x, ?x, ?x])) \<noteq> Some CHAOS \<longrightarrow>
      eventsOn False [?x, ?x, ?x, ?x, ?x] ?x = [CHAOS]"
    using t1 by (elim conjE) assumption
  have w4: "eventsOn False [?x, ?x, ?x, ?x, ?x] ?x = [CHAOS]"
    using d4 k1 by (rule mp)
  have k2: "trailingRun ([?x, ?x, ?x, ?low, ?x, ?x] @ [?x]) \<noteq> 6"
    by (simp add: trailingRun_def lastLabel_def confident_def sample_def)
  have d5: "trailingRun ([?x, ?x, ?x, ?low, ?x, ?x] @ [?x]) \<noteq> 6 \<longrightarrow>
      eventsOn False [?x, ?x, ?x, ?low, ?x, ?x] ?x = []"
    using t2 by (elim conjE) assumption
  have w5: "eventsOn False [?x, ?x, ?x, ?low, ?x, ?x] ?x = []"
    using d5 k2 by (rule mp)
  have k3: "trailingRun ([?x, ?x, ?x, ?none, ?x, ?x] @ [?x]) \<noteq> 6"
    by (simp add: trailingRun_def lastLabel_def confident_def sample_def)
  have d6: "trailingRun ([?x, ?x, ?x, ?none, ?x, ?x] @ [?x]) \<noteq> 6 \<longrightarrow>
      eventsOn False [?x, ?x, ?x, ?none, ?x, ?x] ?x = []"
    using t3 by (elim conjE) assumption
  have w6: "eventsOn False [?x, ?x, ?x, ?none, ?x, ?x] ?x = []"
    using d6 k3 by (rule mp)
  have k4: "lastLabel ([?th, ?th, ?th, ?th, ?th] @ [?th]) = Some ''Thumb_Up''
      \<and> (targetStateOf ''Thumb_Up'' = None
          \<or> targetStateOf ''Thumb_Up''
              = lastEvent (snd (predictAll False initialRefs [?th, ?th, ?th, ?th, ?th])))"
    by (simp add: lastLabel_def confident_def sample_def targetStateOf_def)
  have d7: "lastLabel ([?th, ?th, ?th, ?th, ?th] @ [?th]) = Some ''Thumb_Up''
      \<and> (targetStateOf ''Thumb_Up'' = None
          \<or> targetStateOf ''Thumb_Up''
              = lastEvent (snd (predictAll False initialRefs [?th, ?th, ?th, ?th, ?th]))) \<longrightarrow>
      eventsOn False [?th, ?th, ?th, ?th, ?th] ?th = []"
    using t4 by (elim conjE) assumption
  have w7: "eventsOn False [?th, ?th, ?th, ?th, ?th] ?th = []"
    using d7 k4 by (rule mp)
  have k5: "trailingRun [?x, ?x, ?x, ?low, ?x, ?x] = 2"
    by (simp add: trailingRun_def lastLabel_def confident_def sample_def)
  have d8: "gestureCount (refsAfter False [?x, ?x, ?x, ?low, ?x, ?x])
      = trailingRun [?x, ?x, ?x, ?low, ?x, ?x]"
    using t2 by (elim conjE) assumption
  have w8: "gestureCount (refsAfter False [?x, ?x, ?x, ?low, ?x, ?x]) = 2"
    using d8 k5 by (rule trans)
  from w1 w2 w3 w4 w5 w6 w7 w8 show ?thesis
    by (intro conjI)
qed

text \<open>
  A confident sample whose label differs from the previous one does not clear the refs: the
  counter becomes 1 and the label the new one, not 0 and \<open>null\<close>.
\<close>

theorem mismatch_sets_counter_to_one:
  "(0.9 :: real) > 0.5
   \<and> lastGesture \<lparr> lastGesture = Some ''Open_Palm'', gestureCount = 3, currentState = None \<rparr>
       \<noteq> Some ''Closed_Fist''
   \<and> gestureCount (fst (debounce False ''Closed_Fist'' 0.9
       \<lparr> lastGesture = Some ''Open_Palm'', gestureCount = 3, currentState = None \<rparr>)) \<noteq> 0
   \<and> lastGesture (fst (debounce False ''Closed_Fist'' 0.9
       \<lparr> lastGesture = Some ''Open_Palm'', gestureCount = 3, currentState = None \<rparr>)) \<noteq> None"
  by (simp add: debounce_def)

text \<open>
  C3 (amended). A sample with confidence at or below 0.5 sets the counter to 0 and the last
  label to \<open>null\<close> and does nothing else to the refs; it emits no transition event and no
  status, and the frame's only callback is the one for the hand position. A sample with
  confidence above 0.5 whose label differs from the previous one sets the counter to 1 and
  the last label to its own label, and emits nothing.
\<close>

theorem debounce_resets:
  "(score \<le> 0.5 \<longrightarrow>
      debounce debug name score r = (r\<lparr>gestureCount := 0, lastGesture := None\<rparr>, []))
   \<and> (gestures results = (name, score) # rest \<and> score \<le> 0.5 \<longrightarrow>
      processResults debug results r
        = (r\<lparr>gestureCount := 0, lastGesture := None\<rparr>, moveOf (landmarks results)))
   \<and> (0.5 < score \<and> lastGesture r \<noteq> Some name \<longrightarrow>
      debounce debug name score r = (r\<lparr>lastGesture := Some name, gestureCount := 1\<rparr>, []))"
proof -
  have a: "score \<le> 0.5 \<longrightarrow>
      debounce debug name score r = (r\<lparr>gestureCount := 0, lastGesture := None\<rparr>, [])"
    by (simp add: debounce_low)
  have b: "gestures results = (name, score) # rest \<and> score \<le> 0.5 \<longrightarrow>
      processResults debug results r
        = (r\<lparr>gestureCount := 0, lastGesture := None\<rparr>, moveOf (landmarks results))"
    by (simp add: processResults_def debounce_low)
  have c: "0.5 < score \<and> lastGesture r \<noteq> Some name \<longrightarrow>
      debounce debug name score r = (r\<lparr>lastGesture := Some name, gestureCount := 1\<rparr>, [])"
    by (simp add: debounce_new_label)
  from a b c show ?thesis by blast
qed

text \<open>
  A palm at confidence exactly 0.5 clears a count of 9; a confident fist after palms
  restarts at 1.
\<close>

theorem debounce_resets_witness:
  "debounce True ''Open_Palm'' 0.5
      \<lparr> lastGesture = Some ''Open_Palm'', gestureCount = 9, currentState = Some FORMED \<rparr>
     = (\<lparr> lastGesture = None, gestureCount = 0, currentState = Some FORMED \<rparr>, [])
   \<and> debounce True ''Closed_Fist'' 0.9
      \<lparr> lastGesture = Some ''Open_Palm'', gestureCount = 9, currentState = Some FORMED \<rparr>
     = (\<lparr> lastGesture = Some ''Closed_Fist'', gestureCount = 1, currentState = Some FORMED \<rparr>, [])"
proof -
  let ?r = "\<lparr> lastGesture = Some ''Open_Palm'', gestureCount = 9, currentState = Some FORMED \<rparr>"
  have h1: "(0.5 :: real) \<le> 0.5" by simp
  have h2: "(0.5 :: real) < 0.9 \<and> lastGesture ?r \<noteq> Some ''Closed_Fist''" by simp
  from debounce_resets [of "0.5" True "''Open_Palm''" ?r "\<lparr> gestures = [], landmarks = [] \<rparr>" "[]"] h1
  have a: "debounce True ''Open_Palm'' 0.5 ?r = (?r\<lparr>gestureCount := 0, lastGesture := None\<rparr>, [])"
    by blast
  from debounce_resets [of "0.9" True "''Closed_Fist''" ?r "\<lparr> gestures = [], landmarks = [] \<rparr>" "[]"] h2
  have b: "debounce True ''Closed_Fist'' 0.9 ?r
             = (?r\<lparr>lastGesture := Some ''Closed_Fist'', gestureCount := 1\<rparr>, [])"
    by blast
  from a b show ?thesis by simp
qed

section \<open>Theorems about the layout and the gallery ring\<close>

text \<open>
  C5. For \<open>N > 0\<close> photos and every focused index, photo \<open>i\<close> is placed at the angle
  \<open>2\<pi>i/N - 2\<pi>f/N\<close> on the circle of radius 20 in the plane \<open>y = 0\<close>, and the photo whose
  index is the focused one is at angle 0, the point \<open>(0, 0, 20)\<close> on the positive z axis.
  (Over the reals; in floating point the two products are the same number when \<open>i = f\<close>,
  so their difference is 0 there too.)
\<close>

theorem gallery_focus_front:
  assumes "0 < N"
  shows "getGalleryPosition i N f =
           Vector3 (20 * sin (2 * pi * real_of_int i / real_of_int N
                              - 2 * pi * real_of_int f / real_of_int N))
                   0
                   (20 * cos (2 * pi * real_of_int i / real_of_int N
                              - 2 * pi * real_of_int f / real_of_int N))
       \<and> (vx (getGalleryPosition i N f))\<^sup>2 + (vz (getGalleryPosition i N f))\<^sup>2 = 20\<^sup>2
       \<and> getGalleryPosition f N f = Vector3 0 0 20"
proof -
  define a where "a = real_of_int i / real_of_int N * pi * 2 - real_of_int f / real_of_int N * pi * 2"
  have g: "getGalleryPosition i N f = Vector3 (sin a * 20) 0 (cos a * 20)"
    by (simp add: getGalleryPosition_def Let_def a_def)
  have a': "a = 2 * pi * real_of_int i / real_of_int N - 2 * pi * real_of_int f / real_of_int N"
    by (simp add: a_def mult_ac)
  have "(sin a * 20)\<^sup>2 + (cos a * 20)\<^sup>2 = 20\<^sup>2 * ((sin a)\<^sup>2 + (cos a)\<^sup>2)"
    by (simp only: power_mult_distrib distrib_left mult.commute)
  then have sq: "(sin a * 20)\<^sup>2 + (cos a * 20)\<^sup>2 = 20\<^sup>2"
    by simp
  have p: "getGalleryPosition i N f = Vector3 (20 * sin a) 0 (20 * cos a)"
    by (simp add: g)
  have c: "(vx (getGalleryPosition i N f))\<^sup>2 + (vz (getGalleryPosition i N f))\<^sup>2 = 20\<^sup>2"
    using sq by (simp only: g vector3.sel)
  have z: "getGalleryPosition f N f = Vector3 0 0 20"
    by (simp add: getGalleryPosition_def Let_def)
  from p c z show ?thesis
    unfolding a' by blast
qed

text \<open>
  With 52 photos: the focused photo 7 is in front, and a quarter turn away from the
  focused photo 0 is photo 13, on the positive x axis.
\<close>

theorem gallery_focus_front_witness:
  "getGalleryPosition 7 52 7 = Vector3 0 0 20
   \<and> getGalleryPosition 13 52 0 = Vector3 20 0 0"
proof -
  have n: "0 < (52 :: int)" by simp
  show ?thesis
    using gallery_focus_front [OF n, of 7 7] gallery_focus_front [OF n, of 13 0]
    by simp
qed

text \<open>
  C7. Whatever the random draws: indices 0 and 1 are eyes, index 2 is the nose, indices 3
  to 8 are whiskers. Whiskers 3 to 5 are on the left (\<open>x = -4.5\<close>) with a positive
  z-rotation, \<open>\<pi>/2\<close> minus the row tilt; whiskers 6 to 8 are on the right (\<open>x = 4.5\<close>) with a
  negative z-rotation, \<open>-\<pi>/2\<close> plus the row tilt. The row tilt is 0.15, 0, -0.15 from the
  top row down.
\<close>

theorem face_elements:
  "(i = 0 \<or> i = 1 \<longrightarrow> ktype (getHelloKittyData i rnd) = EYE)
   \<and> (i = 2 \<longrightarrow> ktype (getHelloKittyData i rnd) = NOSE)
   \<and> (3 \<le> i \<and> i \<le> 8 \<longrightarrow> ktype (getHelloKittyData i rnd) = WHISKER)
   \<and> (3 \<le> i \<and> i \<le> 5 \<longrightarrow>
        vx (pos (getHelloKittyData i rnd)) = - 4.5
        \<and> 0 < ez (rotation (getHelloKittyData i rnd)))
   \<and> (6 \<le> i \<and> i \<le> 8 \<longrightarrow>
        vx (pos (getHelloKittyData i rnd)) = 4.5
        \<and> ez (rotation (getHelloKittyData i rnd)) < 0)
   \<and> ez (rotation (getHelloKittyData 3 rnd)) = pi / 2 - 0.15
   \<and> ez (rotation (getHelloKittyData 4 rnd)) = pi / 2 - 0
   \<and> ez (rotation (getHelloKittyData 5 rnd)) = pi / 2 - (- 0.15)
   \<and> ez (rotation (getHelloKittyData 6 rnd)) = - pi / 2 + 0.15
   \<and> ez (rotation (getHelloKittyData 7 rnd)) = - pi / 2 + 0
   \<and> ez (rotation (getHelloKittyData 8 rnd)) = - pi / 2 + (- 0.15)"
proof -
  have p: "1 \<le> pi / 2" using pi_ge_two by simp
  have eye: "i = 0 \<or> i = 1 \<longrightarrow> ktype (getHelloKittyData i rnd) = EYE"
    by (auto simp add: getHelloKittyData_def)
  have nose: "i = 2 \<longrightarrow> ktype (getHelloKittyData i rnd) = NOSE"
    by (simp add: getHelloKittyData_def)
  have wh: "3 \<le> i \<and> i \<le> 8 \<longrightarrow> ktype (getHelloKittyData i rnd) = WHISKER"
    by (simp add: getHelloKittyData_def Let_def)
  have left: "3 \<le> i \<and> i \<le> 5 \<longrightarrow>
        vx (pos (getHelloKittyData i rnd)) = - 4.5
        \<and> 0 < ez (rotation (getHelloKittyData i rnd))"
    using p by (simp add: getHelloKittyData_def Let_def)
  have right: "6 \<le> i \<and> i \<le> 8 \<longrightarrow>
        vx (pos (getHelloKittyData i rnd)) = 4.5
        \<and> ez (rotation (getHelloKittyData i rnd)) < 0"
    using p by (simp add: getHelloKittyData_def Let_def)
  have vals:
    "ez (rotation (getHelloKittyData 3 rnd)) = pi / 2 - 0.15"
    "ez (rotation (getHelloKittyData 4 rnd)) = pi / 2 - 0"
    "ez (rotation (getHelloKittyData 5 rnd)) = pi / 2 - (- 0.15)"
    "ez (rotation (getHelloKittyData 6 rnd)) = - pi / 2 + 0.15"
    "ez (rotation (getHelloKittyData 7 rnd)) = - pi / 2 + 0"
    "ez (rotation (getHelloKittyData 8 rnd)) = - pi / 2 + (- 0.15)"
    by (simp_all add: getHelloKittyData_def Let_def)
  from eye nose wh left right vals show ?thesis by blast
qed

text \<open>
  The left eye, the nose, the lowest left whisker and the lowest right whisker.
\<close>

theorem face_elements_witness:
  "ktype (getHelloKittyData 0 (draws [])) = EYE
   \<and> ktype (getHelloKittyData 2 (draws [])) = NOSE
   \<and> ktype (getHelloKittyData 5 (draws [])) = WHISKER
   \<and> 0 < ez (rotation (getHelloKittyData 5 (draws [])))
   \<and> ktype (getHelloKittyData 8 (draws [])) = WHISKER
   \<and> ez (rotation (getHelloKittyData 8 (draws []))) < 0"
proof -
  have e: "ktype (getHelloKittyData 0 (draws [])) = EYE"
    using face_elements [of 0 "draws []"] by simp
  have n: "ktype (getHelloKittyData 2 (draws [])) = NOSE"
    using face_elements [of 2 "draws []"] by simp
  have l: "ktype (getHelloKittyData 5 (draws [])) = WHISKER
      \<and> 0 < ez (rotation (getHelloKittyData 5 (draws [])))"
    using face_elements [of 5 "draws []"] by simp
  have r: "ktype (getHelloKittyData 8 (draws [])) = WHISKER
      \<and> ez (rotation (getHelloKittyData 8 (draws []))) < 0"
    using face_elements [of 8 "draws []"] by simp
  from e n l r show ?thesis by simp
qed

lemma rot_norm:
  "(a * cos t - b * sin t)\<^sup>2 + (a * sin t + b * cos t)\<^sup>2 = a\<^sup>2 + b\<^sup>2" for a b t :: real
proof -
  have alg: "(a * c - b * s)\<^sup>2 + (a * s + b * c)\<^sup>2 = (a\<^sup>2 + b\<^sup>2) * (s\<^sup>2 + c\<^sup>2)"
    for c s :: real
    by algebra
  show ?thesis
    using alg [of "cos t" "sin t"] by simp
qed

lemma ellipsoid_bound:
  fixes r k p t :: real
  assumes "1 \<le> k"
  shows "(r * sin p * cos t)\<^sup>2 + (r * sin p * sin t * k)\<^sup>2 + (r * cos p * 0.5)\<^sup>2 \<le> (r * k)\<^sup>2"
proof -
  have k2: "1 \<le> k\<^sup>2" using assms by (simp add: one_le_power)
  have r2: "r\<^sup>2 \<le> (r * k)\<^sup>2"
    using mult_left_mono [OF k2, of "r\<^sup>2"] by (simp add: power_mult_distrib)
  have nn1: "0 \<le> (sin p)\<^sup>2 * (cos t)\<^sup>2" by simp
  have e1: "(r * sin p * cos t)\<^sup>2 \<le> (r * k)\<^sup>2 * ((sin p)\<^sup>2 * (cos t)\<^sup>2)"
    using mult_right_mono [OF r2 nn1] by (simp add: power_mult_distrib mult_ac)
  have e2: "(r * sin p * sin t * k)\<^sup>2 = (r * k)\<^sup>2 * ((sin p)\<^sup>2 * (sin t)\<^sup>2)"
    by (simp add: power_mult_distrib mult_ac)
  have q4: "(r * cos p * 0.5)\<^sup>2 = (r\<^sup>2 * (cos p)\<^sup>2) / 4"
    by (simp add: power_mult_distrib power2_eq_square)
  have q0: "0 \<le> r\<^sup>2 * (cos p)\<^sup>2" by simp
  have q: "(r * cos p * 0.5)\<^sup>2 \<le> r\<^sup>2 * (cos p)\<^sup>2"
    using q4 q0 by linarith
  have nn3: "0 \<le> (cos p)\<^sup>2" by simp
  have e3: "(r * cos p * 0.5)\<^sup>2 \<le> (r * k)\<^sup>2 * (cos p)\<^sup>2"
    using q mult_right_mono [OF r2 nn3] by linarith
  have fact: "X * (a * b) + X * (a * c) + X * d = X * (a * (b + c) + d)"
    for X a b c d :: real
    by (simp add: algebra_simps)
  have "(r * k)\<^sup>2 * ((sin p)\<^sup>2 * (cos t)\<^sup>2) + (r * k)\<^sup>2 * ((sin p)\<^sup>2 * (sin t)\<^sup>2)
          + (r * k)\<^sup>2 * (cos p)\<^sup>2
        = (r * k)\<^sup>2 * ((sin p)\<^sup>2 * ((cos t)\<^sup>2 + (sin t)\<^sup>2) + (cos p)\<^sup>2)"
    by (rule fact)
  also have "\<dots> = (r * k)\<^sup>2" by simp
  finally show ?thesis using e1 e2 e3 by linarith
qed

lemma withinBall_rotated:
  "withinBall (addV (applyAxisAngleZ a (addV q c)) off) (addV (applyAxisAngleZ a c) off) radius
     \<longleftrightarrow> (vx q)\<^sup>2 + (vy q)\<^sup>2 + (vz q)\<^sup>2 \<le> radius\<^sup>2"
proof -
  have "(vx q * cos a - vy q * sin a)\<^sup>2 + (vx q * sin a + vy q * cos a)\<^sup>2
          = (vx q)\<^sup>2 + (vy q)\<^sup>2"
    by (rule rot_norm)
  moreover have "(vx q + vx c) * cos a - (vy q + vy c) * sin a - (vx c * cos a - vy c * sin a)
                   = vx q * cos a - vy q * sin a"
    by (simp add: algebra_simps)
  moreover have "(vx q + vx c) * sin a + (vy q + vy c) * cos a - (vx c * sin a + vy c * cos a)
                   = vx q * sin a + vy q * cos a"
    by (simp add: algebra_simps)
  ultimately show ?thesis
    by (simp add: withinBall_def addV_def applyAxisAngleZ_def)
qed

lemma bowData_pos:
  "pos (bowData rnd) =
     (let part = rnd 1;
          c = (if part < 0.2 then Vector3 0 0 0
               else if part < 0.6 then Vector3 (- 1.2) 0 0 else Vector3 1.2 0 0);
          radius = (if part < 0.2 then 0.5 else 0.8);
          k = (if part < 0.2 then 1 else 1.2);
          phi = arccos (2 * rnd 3 - 1); theta = 2 * pi * rnd 2;
          q = Vector3 (radius * sin phi * cos theta) (radius * sin phi * sin theta * k)
                (radius * cos phi * 0.5)
      in addV (applyAxisAngleZ (- 0.5) (addV q c)) bowOffset)"
  by (simp add: bowData_def Let_def bowOffset_def)

text \<open>
  C8 (amended). For every index from 9 to 35 and all random draws the element is a BOW, and
  its position lies in the union of three balls about the lobe centres \<open>(0,0,0)\<close>,
  \<open>(-1.2,0,0)\<close> and \<open>(1.2,0,0)\<close> after these are turned by -0.5 about the z axis and moved by
  the bow offset like the position itself: radius 0.5 for the centre lobe and radius 0.96
  (0.8 stretched by the vertical factor 1.2) for the two side lobes. The draw \<open>part\<close>
  selects the ball.
\<close>

theorem bow_within_stretched_lobes:
  assumes "9 \<le> i" and "i \<le> 35"
  shows "ktype (getHelloKittyData i rnd) = BOW
       \<and> withinLobes rotatedTranslated 0.96 (pos (getHelloKittyData i rnd))
       \<and> (rnd 1 < 0.2 \<longrightarrow>
            withinBall (pos (getHelloKittyData i rnd)) (rotatedTranslated (Vector3 0 0 0)) 0.5)
       \<and> (0.2 \<le> rnd 1 \<and> rnd 1 < 0.6 \<longrightarrow>
            withinBall (pos (getHelloKittyData i rnd))
              (rotatedTranslated (Vector3 (- 1.2) 0 0)) 0.96)
       \<and> (0.6 \<le> rnd 1 \<longrightarrow>
            withinBall (pos (getHelloKittyData i rnd))
              (rotatedTranslated (Vector3 1.2 0 0)) 0.96)"
proof -
  have g: "getHelloKittyData i rnd = bowData rnd"
    using assms by (simp add: getHelloKittyData_def)
  have ty: "ktype (bowData rnd) = BOW"
    by (simp add: bowData_def Let_def split_beta)
  let ?phi = "arccos (2 * rnd 3 - 1)" and ?theta = "2 * pi * rnd 2"
  have b1: "(0.5 * sin ?phi * cos ?theta)\<^sup>2 + (0.5 * sin ?phi * sin ?theta * 1)\<^sup>2
              + (0.5 * cos ?phi * 0.5)\<^sup>2 \<le> (0.5 * 1)\<^sup>2"
    by (rule ellipsoid_bound) simp
  have b2: "(0.8 * sin ?phi * cos ?theta)\<^sup>2 + (0.8 * sin ?phi * sin ?theta * 1.2)\<^sup>2
              + (0.8 * cos ?phi * 0.5)\<^sup>2 \<le> (0.8 * 1.2)\<^sup>2"
    by (rule ellipsoid_bound) simp
  have c1: "rnd 1 < 0.2 \<longrightarrow>
            withinBall (pos (bowData rnd)) (rotatedTranslated (Vector3 0 0 0)) 0.5"
    using b1 by (simp add: bowData_pos Let_def rotatedTranslated_def withinBall_rotated)
  have c2: "0.2 \<le> rnd 1 \<and> rnd 1 < 0.6 \<longrightarrow>
            withinBall (pos (bowData rnd)) (rotatedTranslated (Vector3 (- 1.2) 0 0)) 0.96"
    using b2 by (simp add: bowData_pos Let_def rotatedTranslated_def withinBall_rotated)
  have c3: "0.6 \<le> rnd 1 \<longrightarrow>
            withinBall (pos (bowData rnd)) (rotatedTranslated (Vector3 1.2 0 0)) 0.96"
    using b2 by (simp add: bowData_pos Let_def rotatedTranslated_def withinBall_rotated)
  have u: "withinLobes rotatedTranslated 0.96 (pos (bowData rnd))"
    using c1 c2 c3 unfolding withinLobes_def by fastforce
  from ty u c1 c2 c3 show ?thesis unfolding g by blast
qed


lemma bow_counter_pos:
  "pos (getHelloKittyData 9 (draws [0, 0.3, 0.25, 0.5]))
     = addV (applyAxisAngleZ (- 0.5) (Vector3 (- 1.2) 0.96 0)) bowOffset"
  by (simp add: getHelloKittyData_def bowData_pos Let_def draws_def addV_def)

lemma sin_half_nonneg: "0 \<le> sin (1 / 2 :: real)"
proof (rule sin_ge_zero)
  show "0 \<le> (1 / 2 :: real)" by simp
  show "(1 / 2 :: real) \<le> pi" using pi_ge_two by simp
qed

lemma cos_half_lower: "7 / 8 \<le> cos (1 / 2 :: real)"
proof -
  have "\<bar>sin (1 / 4 :: real)\<bar> \<le> \<bar>1 / 4\<bar>" by (rule abs_sin_x_le_abs_x)
  then have "(sin (1 / 4 :: real))\<^sup>2 \<le> (1 / 4)\<^sup>2" by (simp only: abs_le_square_iff)
  then have s: "(sin (1 / 4 :: real))\<^sup>2 \<le> 1 / 16" by (simp add: power2_eq_square)
  have "cos (2 * (1 / 4 :: real)) = 1 - 2 * (sin (1 / 4))\<^sup>2" by (rule cos_double_sin)
  then have "cos (1 / 2 :: real) = 1 - 2 * (sin (1 / 4))\<^sup>2" by simp
  with s show ?thesis by linarith
qed

lemma bow_counter_height:
  "21 / 25 \<le> vy (applyAxisAngleZ (- 0.5) (Vector3 (- 1.2) 0.96 0))"
proof -
  have "6 / 5 * sin (1 / 2 :: real) + 24 / 25 * cos (1 / 2 :: real) \<ge> 21 / 25"
    using sin_half_nonneg cos_half_lower by linarith
  then show ?thesis
    by (simp add: applyAxisAngleZ_def)
qed

lemma high_point_outside:
  fixes p c :: vector3
  assumes "21 / 25 \<le> vy p - vy c" and "radius\<^sup>2 \<le> 16 / 25"
  shows "\<not> withinBall p c radius"
proof -
  have "(21 / 25 :: real)\<^sup>2 \<le> (vy p - vy c)\<^sup>2"
    using assms(1) by (intro power_mono) simp_all
  then have "441 / 625 \<le> (vy p - vy c)\<^sup>2" by (simp add: power2_eq_square)
  moreover have "0 \<le> (vx p - vx c)\<^sup>2" "0 \<le> (vz p - vz c)\<^sup>2" by simp_all
  ultimately have "16 / 25 < (vx p - vx c)\<^sup>2 + (vy p - vy c)\<^sup>2 + (vz p - vz c)\<^sup>2"
    by linarith
  with assms(2) show ?thesis by (simp add: withinBall_def)
qed

text \<open>
  The draws \<open>part = 0.3\<close>, \<open>u = 0.25\<close>, \<open>v = 0.5\<close> select the left lobe and the top of its
  ellipsoid, 0.96 above the lobe centre. The resulting position is outside all three
  spheres of radius 0.5, 0.8 and 0.8, whether these are only moved by the bow offset or
  turned and moved.
\<close>

theorem bow_outside_lobe_spheres:
  "ktype (getHelloKittyData 9 (draws [0, 0.3, 0.25, 0.5])) = BOW
   \<and> \<not> withinLobes translated 0.8 (pos (getHelloKittyData 9 (draws [0, 0.3, 0.25, 0.5])))
   \<and> \<not> withinLobes rotatedTranslated 0.8
         (pos (getHelloKittyData 9 (draws [0, 0.3, 0.25, 0.5])))"
proof -
  let ?p1 = "Vector3 (- 1.2) 0.96 0"
  let ?p = "addV (applyAxisAngleZ (- 0.5) ?p1) bowOffset"
  have ty: "ktype (getHelloKittyData 9 (draws [0, 0.3, 0.25, 0.5])) = BOW"
    by (simp add: getHelloKittyData_def bowData_def Let_def split_beta)
  have h: "21 / 25 \<le> vy ?p - vy (translated c)" if "vy c = 0" for c
    using bow_counter_height that by (simp add: translated_def addV_def bowOffset_def)
  have t1: "\<not> withinBall ?p (translated (Vector3 0 0 0)) 0.5"
    by (rule high_point_outside [OF h]) (simp_all add: power2_eq_square)
  have t2: "\<not> withinBall ?p (translated (Vector3 (- 1.2) 0 0)) 0.8"
    by (rule high_point_outside [OF h]) (simp_all add: power2_eq_square)
  have t3: "\<not> withinBall ?p (translated (Vector3 1.2 0 0)) 0.8"
    by (rule high_point_outside [OF h]) (simp_all add: power2_eq_square)
  have d1: "?p1 = addV (Vector3 (- 1.2) 0.96 0) (Vector3 0 0 0)"
    and d2: "?p1 = addV (Vector3 0 0.96 0) (Vector3 (- 1.2) 0 0)"
    and d3: "?p1 = addV (Vector3 (- 2.4) 0.96 0) (Vector3 1.2 0 0)"
    by (simp_all add: addV_def)
  have r1: "\<not> withinBall ?p (rotatedTranslated (Vector3 0 0 0)) 0.5"
    unfolding rotatedTranslated_def by (subst d1, subst withinBall_rotated) (simp add: power2_eq_square)
  have r2: "\<not> withinBall ?p (rotatedTranslated (Vector3 (- 1.2) 0 0)) 0.8"
    unfolding rotatedTranslated_def by (subst d2, subst withinBall_rotated) (simp add: power2_eq_square)
  have r3: "\<not> withinBall ?p (rotatedTranslated (Vector3 1.2 0 0)) 0.8"
    unfolding rotatedTranslated_def by (subst d3, subst withinBall_rotated) (simp add: power2_eq_square)
  from t1 t2 t3 have t: "\<not> withinLobes translated 0.8 ?p"
    unfolding withinLobes_def by blast
  from r1 r2 r3 have r: "\<not> withinLobes rotatedTranslated 0.8 ?p"
    unfolding withinLobes_def by blast
  show ?thesis
    unfolding bow_counter_pos using ty t r by blast
qed

text \<open>
  The same draws land in the stretched left lobe; a draw \<open>part = 0.1\<close> lands in the centre
  lobe.
\<close>

theorem bow_within_stretched_lobes_witness:
  "ktype (getHelloKittyData 9 (draws [0, 0.3, 0.25, 0.5])) = BOW
   \<and> withinBall (pos (getHelloKittyData 9 (draws [0, 0.3, 0.25, 0.5])))
       (rotatedTranslated (Vector3 (- 1.2) 0 0)) 0.96
   \<and> withinBall (pos (getHelloKittyData 35 (draws [0.5, 0.1, 0, 1])))
       (rotatedTranslated (Vector3 0 0 0)) 0.5"
proof -
  have a: "(9 :: nat) \<le> 9" "(9 :: nat) \<le> 35" "(9 :: nat) \<le> 35" "(35 :: nat) \<le> 35"
    by simp_all
  have b: "0.2 \<le> draws [0, 0.3, 0.25, 0.5] 1 \<and> draws [0, 0.3, 0.25, 0.5] 1 < 0.6"
    by (simp add: draws_def)
  have c: "draws [0.5, 0.1, 0, 1] 1 < 0.2"
    by (simp add: draws_def)
  from bow_within_stretched_lobes [OF a(1) a(2), of "draws [0, 0.3, 0.25, 0.5]"] b
    bow_within_stretched_lobes [OF a(3) a(4), of "draws [0.5, 0.1, 0, 1]"] c
  show ?thesis by blast
qed

section \<open>Theorems about the particle field\<close>

lemma firstOfTexture_iff:
  "firstOfTexture data i \<longleftrightarrow>
     ptype (data ! i) = PHOTO
     \<and> (\<forall>j<i. \<not> (ptype (data ! j) = PHOTO \<and> textureIndex (data ! j) = textureIndex (data ! i)))"
  by (auto simp add: firstOfTexture_def list_all_iff)

lemma seenUpTo_iff:
  "seenUpTo data n = {textureIndex (data ! j) | j. j < n \<and> ptype (data ! j) = PHOTO}"
  by (auto simp add: seenUpTo_def)

lemma seenUpTo_Suc:
  "seenUpTo data (Suc n) =
     (if ptype (data ! n) = PHOTO then insert (textureIndex (data ! n)) (seenUpTo data n)
      else seenUpTo data n)"
  by (auto simp add: seenUpTo_iff less_Suc_eq)

lemma not_seen_iff:
  "ptype (data ! n) = PHOTO \<and> textureIndex (data ! n) \<notin> seenUpTo data n
     \<longleftrightarrow> firstOfTexture data n"
  by (auto simp add: seenUpTo_iff firstOfTexture_iff)

lemma unique_loop:
  "fold (uniqueStep data) [0..<n] ({}, [])
     = (seenUpTo data n, filter (firstOfTexture data) [0..<n])"
proof (induction n)
  case 0
  show ?case by (simp add: seenUpTo_iff)
next
  case (Suc n)
  have step: "uniqueStep data n (seenUpTo data n, filter (firstOfTexture data) [0..<n])
        = (seenUpTo data (Suc n), filter (firstOfTexture data) [0..<Suc n])"
    using not_seen_iff [of data n]
    by (auto simp add: uniqueStep_def seenUpTo_Suc firstOfTexture_iff)
  show ?case
    by (simp add: Suc.IH step)
qed

lemma uniquePhotoIndices_filter:
  "uniquePhotoIndices data = filter (firstOfTexture data) [0..<length data]"
  by (simp add: uniquePhotoIndices_def unique_loop)

lemma uniquePhotoIndices_mem:
  "i \<in> set (uniquePhotoIndices data) \<longleftrightarrow>
     i < length data \<and> ptype (data ! i) = PHOTO
     \<and> (\<forall>j<i. ptype (data ! j) = PHOTO \<longrightarrow> textureIndex (data ! j) \<noteq> textureIndex (data ! i))"
  by (auto simp add: uniquePhotoIndices_filter firstOfTexture_iff)

lemma uniquePhotoIndices_distinct: "distinct (uniquePhotoIndices data)"
  by (simp add: uniquePhotoIndices_filter)

lemma uniquePhotoIndices_inj:
  "inj_on (\<lambda>i. textureIndex (data ! i)) (set (uniquePhotoIndices data))"
proof (rule inj_onI)
  fix a b
  assume a: "a \<in> set (uniquePhotoIndices data)" and b: "b \<in> set (uniquePhotoIndices data)"
    and e: "textureIndex (data ! a) = textureIndex (data ! b)"
  show "a = b"
  proof (rule ccontr)
    assume "a \<noteq> b"
    then consider "a < b" | "b < a" by linarith
    then show False
      using a b e by cases (auto simp add: uniquePhotoIndices_mem)
  qed
qed

lemma uniquePhotoIndices_covers:
  "j < length data \<Longrightarrow> ptype (data ! j) = PHOTO \<Longrightarrow>
   \<exists>i\<in>set (uniquePhotoIndices data). textureIndex (data ! i) = textureIndex (data ! j)"
proof (induction j rule: less_induct)
  case (less j)
  show ?case
  proof (cases "j \<in> set (uniquePhotoIndices data)")
    case True
    then show ?thesis by blast
  next
    case False
    with less.prems obtain k where k: "k < j" "ptype (data ! k) = PHOTO"
      "textureIndex (data ! k) = textureIndex (data ! j)"
      by (auto simp add: uniquePhotoIndices_mem)
    from k(1) less.prems(1) have "k < length data" by simp
    from less.IH [OF k(1) this k(2)] k(3) show ?thesis by auto
  qed
qed

lemma useFrame_nth:
  "i < length data \<Longrightarrow>
   the (useFrame True state gallery idx delta data) ! i
     = frameChild state gallery idx delta (uniquePhotoIndices data) i (data ! i)"
  by (simp add: useFrame_def)

lemma frameChild_visible:
  "visible (snd (frameChild state gallery idx delta unique i p)) \<longleftrightarrow>
     (gallery \<longrightarrow> i \<in> set unique)"
  by (simp add: frameChild_def Let_def)

text \<open>
  C6. A frame update of the mounted group returns one entry per particle. In gallery mode
  the visible groups are exactly those of \<open>uniquePhotoIndices\<close>, all others are hidden;
  outside gallery mode every group is visible. \<open>uniquePhotoIndices\<close> holds exactly the
  indices of the particles that are the first of type PHOTO with their texture index: each
  is a PHOTO, no two share a texture index, and every texture index carried by a PHOTO
  particle has its one representative.
\<close>

theorem gallery_visibility:
  "useFrame False state gallery idx delta data = None
   \<and> useFrame True state gallery idx delta data \<noteq> None
   \<and> length (the (useFrame True state gallery idx delta data)) = length data
   \<and> (\<forall>i<length data.
        visible (snd (the (useFrame True state gallery idx delta data) ! i))
          \<longleftrightarrow> (gallery \<longrightarrow> i \<in> set (uniquePhotoIndices data)))
   \<and> (\<forall>i. i \<in> set (uniquePhotoIndices data) \<longleftrightarrow>
          i < length data \<and> ptype (data ! i) = PHOTO
          \<and> (\<forall>j<i. ptype (data ! j) = PHOTO \<longrightarrow>
                textureIndex (data ! j) \<noteq> textureIndex (data ! i)))
   \<and> distinct (uniquePhotoIndices data)
   \<and> inj_on (\<lambda>i. textureIndex (data ! i)) (set (uniquePhotoIndices data))
   \<and> (\<forall>j<length data. ptype (data ! j) = PHOTO \<longrightarrow>
        (\<exists>i\<in>set (uniquePhotoIndices data).
            textureIndex (data ! i) = textureIndex (data ! j)))"
proof -
  have a: "useFrame False state gallery idx delta data = None"
    "useFrame True state gallery idx delta data \<noteq> None"
    by (simp_all add: useFrame_def)
  have b: "length (the (useFrame True state gallery idx delta data)) = length data"
    by (simp add: useFrame_def)
  have c: "\<forall>i<length data.
        visible (snd (the (useFrame True state gallery idx delta data) ! i))
          \<longleftrightarrow> (gallery \<longrightarrow> i \<in> set (uniquePhotoIndices data))"
    by (simp add: useFrame_nth frameChild_visible)
  have d: "\<forall>i. i \<in> set (uniquePhotoIndices data) \<longleftrightarrow>
          i < length data \<and> ptype (data ! i) = PHOTO
          \<and> (\<forall>j<i. ptype (data ! j) = PHOTO \<longrightarrow>
                textureIndex (data ! j) \<noteq> textureIndex (data ! i))"
    using uniquePhotoIndices_mem by blast
  have e: "\<forall>j<length data. ptype (data ! j) = PHOTO \<longrightarrow>
        (\<exists>i\<in>set (uniquePhotoIndices data).
            textureIndex (data ! i) = textureIndex (data ! j))"
    using uniquePhotoIndices_covers by blast
  from a b c d e uniquePhotoIndices_distinct uniquePhotoIndices_inj
  show ?thesis by blast
qed

text \<open>
  Of a photo, a heart and a second photo with the same texture, gallery mode shows the
  first photo only; outside gallery mode all three are shown.
\<close>

theorem gallery_visibility_witness:
  "uniquePhotoIndices exampleData = [0]
   \<and> map (\<lambda>c. visible (snd c)) (the (useFrame True FORMED True 0 0 exampleData))
       = [True, False, False]
   \<and> map (\<lambda>c. visible (snd c)) (the (useFrame True FORMED False 0 0 exampleData))
       = [True, True, True]"
proof -
  have u: "uniquePhotoIndices exampleData = [0]"
    by (simp add: uniquePhotoIndices_def uniqueStep_def exampleData_def exampleParticle_def
        upt_rec)
  have l: "length exampleData = 3" by (simp add: exampleData_def)
  note g = gallery_visibility [of FORMED True 0 0 exampleData]
  note n = gallery_visibility [of FORMED False 0 0 exampleData]
  have lg: "length (the (useFrame True FORMED True 0 0 exampleData)) = 3"
    using g l by simp
  have ln: "length (the (useFrame True FORMED False 0 0 exampleData)) = 3"
    using n l by simp
  have vg: "visible (snd (the (useFrame True FORMED True 0 0 exampleData) ! i))
              \<longleftrightarrow> i = 0" if "i < 3" for i
    using g l u that by simp
  have vn: "visible (snd (the (useFrame True FORMED False 0 0 exampleData) ! i))"
    if "i < 3" for i
    using n l that by simp
  have three: "xs = [xs ! 0, xs ! 1, xs ! 2]" if "length xs = 3" for xs :: "'a list"
    using that by (auto simp add: list_eq_iff_nth_eq less_Suc_eq numeral_3_eq_3 numeral_2_eq_2 nth_Cons')
  have mg: "map (\<lambda>c. visible (snd c)) (the (useFrame True FORMED True 0 0 exampleData))
       = [True, False, False]"
    using three [of "map (\<lambda>c. visible (snd c)) (the (useFrame True FORMED True 0 0 exampleData))"]
      lg vg [of 0] vg [of 1] vg [of 2] by simp
  have mn: "map (\<lambda>c. visible (snd c)) (the (useFrame True FORMED False 0 0 exampleData))
       = [True, True, True]"
    using three [of "map (\<lambda>c. visible (snd c)) (the (useFrame True FORMED False 0 0 exampleData))"]
      ln vn [of 0] vn [of 1] vn [of 2] by simp
  from u mg mn show ?thesis by blast
qed

end
